theory Spec2Isabelle
  imports Complex_Main "HOL-Library.Word" "HOL-Library.AList"
begin

text \<open>
  A model of the frame pipeline of the remote web-view server: the broadcaster, which
  queues the packets of each frame per device and drains them to the connected clients,
  and the device sessions, which take frames from the browser, throttle and process them
  and hand the result to the broadcaster. Callbacks are functions from the state before
  to the state after, together with the list of what they do to the outside; what the
  outside does in return (the answers of the browser, the clock, what happens during an
  \<^verbatim>\<open>await\<close>) is an argument.
\<close>

section \<open>The broadcaster (src/src/broadcaster.ts)\<close>

subsection \<open>Data\<close>

text \<open>
  A packet is a \<^verbatim>\<open>Buffer\<close>: a sequence of bytes. An \<^verbatim>\<open>OutFrame\<close> is a frame id and
  the packets built for it; the per-device \<^verbatim>\<open>BroadcasterState\<close> is the queue of OutFrames
  and the \<^verbatim>\<open>sending\<close> flag.
\<close>

type_synonym packet = "8 word list"

record OutFrame =
  o_frameId :: "32 word"
  packets :: "packet list"

record BroadcasterState =
  queue :: "OutFrame list"
  sending :: bool

text \<open>
  A client connection. The broadcaster reads \<^verbatim>\<open>readyState\<close> and \<^verbatim>\<open>bufferedAmount\<close>, and
  calls \<^verbatim>\<open>send\<close> and \<^verbatim>\<open>close\<close>. \<open>wsid\<close> is the identity of the socket object;
  \<open>send_throws\<close> says whether a \<^verbatim>\<open>send\<close> on the socket raises.
\<close>

datatype readyState = CONNECTING | OPEN | CLOSING | CLOSED

record WebSocket =
  wsid :: nat
  readyState :: readyState
  bufferedAmount :: nat
  send_throws :: bool

text \<open>
  A JavaScript Set of sockets keeps insertion order and compares by object identity:
  a list of sockets, compared by \<open>wsid\<close>.
\<close>

definition set_add :: "WebSocket \<Rightarrow> WebSocket list \<Rightarrow> WebSocket list" where
  "set_add ws ps = (if wsid ws \<in> wsid ` set ps then ps else ps @ [ws])"

definition set_delete :: "WebSocket \<Rightarrow> WebSocket list \<Rightarrow> WebSocket list" where
  "set_delete ws ps = filter (\<lambda>p. wsid p \<noteq> wsid ws) ps"

record DeviceBroadcaster =
  clients :: "string \<rightharpoonup> WebSocket list"
  state :: "string \<rightharpoonup> BroadcasterState"

text \<open>
  What the broadcaster does to the outside world, in order: closing a socket, sending a
  packet of a frame on a socket (or failing to), registering a one-time listener for an
  event of a socket, and the two kinds of suspension (a timer sleep of so many milliseconds, and the yield
  \<^verbatim>\<open>await Promise.resolve()\<close>).
\<close>

datatype wire_event =
    WsClose nat
  | WsSend nat OutFrame packet
  | WsSendFailed nat OutFrame packet
  | WsOnce nat string
  | Sleep int
  | Yield

definition MIN_FRAME_GAP_MS :: int where "MIN_FRAME_GAP_MS = 100"
definition DRAIN_POLL_MS :: int where "DRAIN_POLL_MS = 5"
definition DRAIN_MAX_MS :: int where "DRAIN_MAX_MS = 2000"
definition BACKPRESSURE_LOW :: nat where "BACKPRESSURE_LOW = 16 * 1024"

subsection \<open>Client registry\<close>

text \<open>
  \<^verbatim>\<open>addClient\<close>, lines 21 to 27: when a non-empty set is registered for the id, every socket
  of it is closed (errors of \<^verbatim>\<open>close\<close> are swallowed) and the set is cleared.
\<close>

definition closeOld :: "DeviceBroadcaster \<Rightarrow> string \<Rightarrow> DeviceBroadcaster \<times> wire_event list" where
  "closeOld b i =
     (case clients b i of
        None \<Rightarrow> (b, [])
      | Some old \<Rightarrow>
          if old \<noteq> [] then (b\<lparr>clients := (clients b)(i \<mapsto> [])\<rparr>, map (\<lambda>sock. WsClose (wsid sock)) old)
          else (b, []))"

text \<open>\<^verbatim>\<open>addClient\<close>, lines 29 to 36: the set and the state are created when missing, the
  socket is added, and the listeners that call \<^verbatim>\<open>removeClient\<close> are registered.\<close>

definition register :: "DeviceBroadcaster \<Rightarrow> string \<Rightarrow> WebSocket \<Rightarrow> DeviceBroadcaster \<times> wire_event list" where
  "register b i ws =
     (let c1 = (if clients b i = None then (clients b)(i \<mapsto> []) else clients b);
          c2 = (case c1 i of None \<Rightarrow> c1 | Some ps \<Rightarrow> c1(i \<mapsto> set_add ws ps));
          s1 = (if state b i = None then (state b)(i \<mapsto> \<lparr>queue = [], sending = False\<rparr>) else state b)
      in (b\<lparr>clients := c2, state := s1\<rparr>, [WsOnce (wsid ws) ''close'', WsOnce (wsid ws) ''error'']))"

definition addClient :: "DeviceBroadcaster \<Rightarrow> string \<Rightarrow> WebSocket \<Rightarrow> DeviceBroadcaster \<times> wire_event list" where
  "addClient b i ws =
     (let (b1, closed) = closeOld b i;
          (b2, listening) = register b1 i ws
      in (b2, closed @ listening))"

definition getClientCount :: "DeviceBroadcaster \<Rightarrow> string \<Rightarrow> nat" where
  "getClientCount b i = (case clients b i of None \<Rightarrow> 0 | Some ps \<Rightarrow> length ps)"

definition removeClient :: "DeviceBroadcaster \<Rightarrow> string \<Rightarrow> WebSocket \<Rightarrow> DeviceBroadcaster" where
  "removeClient b i ws =
     (let c1 = (case clients b i of None \<Rightarrow> clients b | Some ps \<Rightarrow> (clients b)(i \<mapsto> set_delete ws ps));
          b1 = b\<lparr>clients := c1\<rparr>
      in if getClientCount b1 i = 0
         then b1\<lparr>clients := (clients b1)(i := None), state := (state b1)(i := None)\<rparr>
         else b1)"

definition ensureState :: "DeviceBroadcaster \<Rightarrow> string \<Rightarrow> BroadcasterState \<times> DeviceBroadcaster" where
  "ensureState b i =
     (case state b i of
        Some st \<Rightarrow> (st, b)
      | None \<Rightarrow> (let st = \<lparr>queue = [], sending = False\<rparr> in (st, b\<lparr>state := (state b)(i \<mapsto> st)\<rparr>)))"

subsection \<open>The drain\<close>

text \<open>
  The drain is asynchronous: at every \<^verbatim>\<open>await\<close> other callbacks run. What they can do to
  the objects the drain holds is one \<open>tick\<close>: \<^verbatim>\<open>sendFrameChunked\<close> and
  \<^verbatim>\<open>startSelfTestMeasurement\<close> push frames on the queue (\<open>arrivals\<close>; a second drain
  returns at once, \<open>sending\<close> being set, so nothing else touches the queue), the client set
  and its sockets change (\<open>peers_now\<close>, the set as it is after the suspension, when it
  changed), and a timer fires \<open>late\<close> milliseconds after its delay. The ticks to come are
  the list \<open>d_env\<close>; once it is used up nothing more happens from outside. The clock
  \<open>d_now\<close> is what \<^verbatim>\<open>Date.now()\<close> reads; it does not move inside synchronous code.
\<close>

record tick =
  arrivals :: "OutFrame list"
  peers_now :: "WebSocket list option"
  late :: nat

record drain_st =
  d_queue :: "OutFrame list"
  d_peers :: "WebSocket list"
  d_now :: int
  d_env :: "tick list"
  d_log :: "wire_event list"

definition suspend :: "wire_event \<Rightarrow> int \<Rightarrow> drain_st \<Rightarrow> drain_st" where
  "suspend ev d s =
     (case d_env s of
        [] \<Rightarrow> s\<lparr>d_now := d_now s + d, d_log := d_log s @ [ev]\<rparr>
      | t # ts \<Rightarrow>
          s\<lparr>d_queue := d_queue s @ arrivals t,
            d_peers := (case peers_now t of None \<Rightarrow> d_peers s | Some ps \<Rightarrow> ps),
            d_now := d_now s + d + int (late t),
            d_env := ts,
            d_log := d_log s @ [ev]\<rparr>)"

text \<open>\<^verbatim>\<open>await new Promise(r => setTimeout(r, d))\<close> and \<^verbatim>\<open>await Promise.resolve()\<close>.\<close>

definition sleep :: "int \<Rightarrow> drain_st \<Rightarrow> drain_st" where
  "sleep d s = suspend (Sleep d) d s"

definition yield :: "drain_st \<Rightarrow> drain_st" where
  "yield s = suspend Yield 0 s"

text \<open>Lines 106 to 117: one packet to every socket of a snapshot of the set.\<close>

fun send_each :: "OutFrame \<Rightarrow> packet \<Rightarrow> WebSocket list \<Rightarrow> drain_st \<Rightarrow> drain_st" where
  "send_each f pkt [] s = s"
| "send_each f pkt (ws # snapshot) s =
     (if readyState ws \<noteq> OPEN
      then send_each f pkt snapshot (s\<lparr>d_peers := set_delete ws (d_peers s)\<rparr>)
      else if send_throws ws
      then send_each f pkt snapshot
             (s\<lparr>d_peers := set_delete ws (d_peers s),
                d_log := d_log s @ [WsSendFailed (wsid ws) f pkt, WsClose (wsid ws)]\<rparr>)
      else send_each f pkt snapshot (s\<lparr>d_log := d_log s @ [WsSend (wsid ws) f pkt]\<rparr>))"

text \<open>
  Lines 102 to 122, the loop over the packets of the frame \<open>f\<close>. It ends by running out
  of packets, by the \<^verbatim>\<open>break\<close> of line 104, or by the \<^verbatim>\<open>return\<close> of line 120, which
  leaves the drain.
\<close>

datatype outcome = Completed | Aborted | PeersGone

fun send_packets :: "OutFrame \<Rightarrow> packet list \<Rightarrow> drain_st \<Rightarrow> outcome \<times> drain_st" where
  "send_packets f [] s = (Completed, s)"
| "send_packets f (pkt # rest) s =
     (if d_queue s \<noteq> [] then (Aborted, s)
      else let s1 = send_each f pkt (d_peers s) s
           in if d_peers s1 = [] then (PeersGone, s1\<lparr>d_queue := []\<rparr>)
              else send_packets f rest (yield s1))"

text \<open>\<^verbatim>\<open>_paceBeforeNextFrame\<close>: the largest \<^verbatim>\<open>bufferedAmount\<close> of the open sockets, the
  polling loop of lines 154 to 163, and the whole function.\<close>

definition maxBuf :: "WebSocket list \<Rightarrow> nat" where
  "maxBuf ps = foldl (\<lambda>m ws. if readyState ws = OPEN then max m (bufferedAmount ws) else m) 0 ps"

function pace_poll :: "int \<Rightarrow> drain_st \<Rightarrow> drain_st" where
  "pace_poll deadline s =
     (if d_now s < deadline
      then if d_queue s \<noteq> [] then s
           else if maxBuf (d_peers s) \<le> BACKPRESSURE_LOW then s
           else pace_poll deadline (sleep DRAIN_POLL_MS s)
      else s)"
  by pat_completeness auto
termination
  by (relation "measure (\<lambda>(deadline, s). nat (deadline - d_now s))")
     (auto simp: sleep_def suspend_def DRAIN_POLL_MS_def split: list.splits)

definition paceBeforeNextFrame :: "drain_st \<Rightarrow> drain_st" where
  "paceBeforeNextFrame s =
     (let s1 = sleep MIN_FRAME_GAP_MS s;
          deadline = d_now s1 + DRAIN_MAX_MS
      in pace_poll deadline s1)"

text \<open>Lines 93 to 97: only the latest queued frame is kept.\<close>

definition prune :: "OutFrame list \<Rightarrow> OutFrame list" where
  "prune q = (if length q > 1 then [last q] else q)"

text \<open>
  Lines 119 to 138, what follows the packet loop: the \<^verbatim>\<open>return\<close> of line 120 or 124 ends
  the drain (\<open>False\<close>), otherwise the \<^verbatim>\<open>while\<close> loop goes on (\<open>True\<close>), after pacing
  when the frame was not aborted.
\<close>

fun finish_cycle :: "outcome \<times> drain_st \<Rightarrow> bool \<times> drain_st" where
  "finish_cycle (PeersGone, s) = (False, s)"
| "finish_cycle (r, s) =
     (if d_peers s = [] then (False, s\<lparr>d_queue := []\<rparr>)
      else if r \<noteq> Aborted then (True, paceBeforeNextFrame s)
      else (True, s))"

text \<open>One turn of the \<^verbatim>\<open>while\<close> loop of line 91, entered with a non-empty queue.\<close>

definition cycle :: "drain_st \<Rightarrow> bool \<times> drain_st" where
  "cycle s =
     (case prune (d_queue s) of
        [] \<Rightarrow> (False, s)
      | f # q' \<Rightarrow> finish_cycle (send_packets f (packets f) (s\<lparr>d_queue := q'\<rparr>)))"

subsection \<open>The drain loop ends\<close>

text \<open>
  Every turn of the loop that goes on has used up a tick of the environment, or the
  environment is silent and the queue is empty after it: the loop of line 91 ends.
\<close>

lemma prune_Cons: "prune q = f # q' \<Longrightarrow> q' = [] \<and> f = last q \<and> q \<noteq> []"
  by (auto simp: prune_def split: if_splits)

lemma suspend_env_le: "length (d_env (suspend ev d s)) \<le> length (d_env s)"
  by (simp add: suspend_def split: list.splits)

lemma send_each_env [simp]: "d_env (send_each f pkt snap s) = d_env s"
  by (induction snap arbitrary: s) auto

lemma send_each_queue [simp]: "d_queue (send_each f pkt snap s) = d_queue s"
  by (induction snap arbitrary: s) auto

lemma send_each_now [simp]: "d_now (send_each f pkt snap s) = d_now s"
  by (induction snap arbitrary: s) auto

lemma send_packets_env_le:
  "length (d_env (snd (send_packets f pk s))) \<le> length (d_env s)"
proof (induction pk arbitrary: s)
  case Nil
  then show ?case by simp
next
  case (Cons pkt rest)
  have "length (d_env (snd (send_packets f rest (yield (send_each f pkt (d_peers s) s)))))
        \<le> length (d_env (yield (send_each f pkt (d_peers s) s)))"
    by (rule Cons.IH)
  also have "\<dots> \<le> length (d_env s)"
    using suspend_env_le [of Yield 0 "send_each f pkt (d_peers s) s"] by (simp add: yield_def)
  finally show ?case by (simp add: Let_def)
qed

lemma send_packets_queue_env:
  "d_queue s = [] \<Longrightarrow> d_queue (snd (send_packets f pk s)) \<noteq> [] \<Longrightarrow>
   length (d_env (snd (send_packets f pk s))) < length (d_env s)"
proof (induction pk arbitrary: s)
  case Nil
  then show ?case by simp
next
  case (Cons pkt rest)
  let ?s1 = "send_each f pkt (d_peers s) s"
  let ?s2 = "yield ?s1"
  from Cons.prems have ne: "d_peers ?s1 \<noteq> []" by (auto simp: Let_def split: if_splits)
  with Cons.prems have res: "send_packets f (pkt # rest) s = send_packets f rest ?s2"
    by (simp add: Let_def)
  show ?case
  proof (cases "d_queue ?s2 = []")
    case True
    from Cons.IH [OF True] Cons.prems(2) res
    have "length (d_env (snd (send_packets f rest ?s2))) < length (d_env ?s2)" by simp
    also have "\<dots> \<le> length (d_env s)"
      using suspend_env_le [of Yield 0 ?s1] by (simp add: yield_def)
    finally show ?thesis using res by simp
  next
    case False
    with Cons.prems(1) have "length (d_env ?s2) < length (d_env s)"
      by (auto simp: yield_def suspend_def split: list.splits)
    with send_packets_env_le [of f rest ?s2] show ?thesis using res by simp
  qed
qed

lemma send_packets_Aborted_queue:
  "send_packets f pk s = (Aborted, s1) \<Longrightarrow> d_queue s1 \<noteq> []"
  by (induction pk arbitrary: s) (auto simp: Let_def split: if_splits)

declare pace_poll.simps [simp del]

lemma pace_poll_env_le: "length (d_env (pace_poll dl s)) \<le> length (d_env s)"
proof (induction dl s rule: pace_poll.induct)
  case (1 deadline s)
  show ?case
  proof (cases "d_now s < deadline \<and> d_queue s = [] \<and> \<not> maxBuf (d_peers s) \<le> BACKPRESSURE_LOW")
    case True
    then have "pace_poll deadline s = pace_poll deadline (sleep DRAIN_POLL_MS s)"
      by (subst pace_poll.simps) simp
    moreover have "length (d_env (pace_poll deadline (sleep DRAIN_POLL_MS s))) \<le> length (d_env (sleep DRAIN_POLL_MS s))"
      using True by (intro "1.IH") auto
    moreover have "length (d_env (sleep DRAIN_POLL_MS s)) \<le> length (d_env s)"
      by (simp add: sleep_def suspend_env_le)
    ultimately show ?thesis by simp
  next
    case False
    then have "pace_poll deadline s = s" by (subst pace_poll.simps) auto
    then show ?thesis by simp
  qed
qed

lemma pace_poll_quiet: "d_env s = [] \<Longrightarrow> d_env (pace_poll dl s) = [] \<and> d_queue (pace_poll dl s) = d_queue s"
proof (induction dl s rule: pace_poll.induct)
  case (1 deadline s)
  show ?case
  proof (cases "d_now s < deadline \<and> d_queue s = [] \<and> \<not> maxBuf (d_peers s) \<le> BACKPRESSURE_LOW")
    case True
    then have eq: "pace_poll deadline s = pace_poll deadline (sleep DRAIN_POLL_MS s)"
      by (subst pace_poll.simps) simp
    have q: "d_env (sleep DRAIN_POLL_MS s) = []" "d_queue (sleep DRAIN_POLL_MS s) = d_queue s"
      using "1.prems" by (simp_all add: sleep_def suspend_def)
    from "1.IH" [OF _ _ _ q(1)] True q eq show ?thesis by simp
  next
    case False
    then have "pace_poll deadline s = s" by (subst pace_poll.simps) auto
    with "1.prems" show ?thesis by simp
  qed
qed

lemma pace_env:
  "length (d_env (paceBeforeNextFrame s)) \<le> length (d_env s)"
  "d_env s \<noteq> [] \<Longrightarrow> length (d_env (paceBeforeNextFrame s)) < length (d_env s)"
  "d_env s = [] \<Longrightarrow> d_env (paceBeforeNextFrame s) = [] \<and> d_queue (paceBeforeNextFrame s) = d_queue s"
proof -
  let ?s1 = "sleep MIN_FRAME_GAP_MS s"
  have a: "length (d_env (paceBeforeNextFrame s)) \<le> length (d_env ?s1)"
    by (simp add: paceBeforeNextFrame_def Let_def pace_poll_env_le)
  have b: "length (d_env ?s1) \<le> length (d_env s)" by (simp add: sleep_def suspend_env_le)
  from a b show "length (d_env (paceBeforeNextFrame s)) \<le> length (d_env s)" by simp
  show "length (d_env (paceBeforeNextFrame s)) < length (d_env s)" if "d_env s \<noteq> []"
  proof -
    from that have "length (d_env ?s1) < length (d_env s)"
      by (auto simp: sleep_def suspend_def split: list.splits)
    with a show ?thesis by simp
  qed
  show "d_env (paceBeforeNextFrame s) = [] \<and> d_queue (paceBeforeNextFrame s) = d_queue s" if "d_env s = []"
  proof -
    from that have "d_env ?s1 = []" "d_queue ?s1 = d_queue s" by (simp_all add: sleep_def suspend_def)
    with pace_poll_quiet [of ?s1] show ?thesis by (simp add: paceBeforeNextFrame_def Let_def)
  qed
qed

definition drain_measure :: "drain_st \<Rightarrow> nat" where
  "drain_measure s = 2 * length (d_env s) + (if d_queue s = [] then 0 else 1)"

lemma cycle_decreases:
  assumes "d_queue s \<noteq> []" and "cycle s = (True, s')"
  shows "drain_measure s' < drain_measure s"
proof -
  from assms(1) have "prune (d_queue s) = [last (d_queue s)]"
    by (cases "d_queue s") (auto simp: prune_def)
  then obtain f where pr: "prune (d_queue s) = [f]" by blast
  let ?s0 = "s\<lparr>d_queue := []\<rparr>"
  obtain r s1 where sp: "send_packets f (packets f) ?s0 = (r, s1)" by force
  from assms(2) pr sp have fc: "finish_cycle (r, s1) = (True, s')" by (simp add: cycle_def)
  have le: "length (d_env s1) \<le> length (d_env s)"
    using send_packets_env_le [of f "packets f" ?s0] sp by simp
  have lt: "d_queue s1 \<noteq> [] \<Longrightarrow> length (d_env s1) < length (d_env s)"
    using send_packets_queue_env [of ?s0 f "packets f"] sp by simp
  show ?thesis
  proof (cases "r = Aborted")
    case True
    with fc have "s' = s1" by (auto split: if_splits)
    moreover from True sp have "d_queue s1 \<noteq> []" by (auto dest: send_packets_Aborted_queue)
    ultimately show ?thesis using lt assms(1) by (simp add: drain_measure_def)
  next
    case False
    with fc have s': "s' = paceBeforeNextFrame s1" by (cases r) (auto split: if_splits)
    show ?thesis
    proof (cases "d_env s1 = []")
      case True
      from pace_env(3) [OF True] have "d_env s' = []" "d_queue s' = d_queue s1" by (simp_all add: s')
      with lt True assms(1) show ?thesis by (auto simp: drain_measure_def)
    next
      case False
      from pace_env(2) [OF False] le assms(1) show ?thesis by (simp add: drain_measure_def s')
    qed
  qed
qed

function drain_loop :: "drain_st \<Rightarrow> drain_st" where
  "drain_loop s =
     (if d_queue s \<noteq> []
      then (case cycle s of (True, s') \<Rightarrow> drain_loop s' | (False, s') \<Rightarrow> s')
      else s)"
  by pat_completeness auto
termination drain_loop
  apply (relation "measure drain_measure")
   apply simp
  apply (simp add: cycle_decreases)
  done

declare drain_loop.simps [simp del]

text \<open>
  \<^verbatim>\<open>_drainAsync\<close>. The drain works on the state object and the client set it looked up at
  its start, and the ticks act on these two objects; when it ends they are put back under
  the id, with \<open>sending\<close> reset by the \<^verbatim>\<open>finally\<close> block. (A \<^verbatim>\<open>removeClient\<close> that
  meanwhile took the two objects out of the maps is not followed: what the theorems use of
  a running drain is what it sends.)
\<close>

definition drainAsync ::
  "DeviceBroadcaster \<Rightarrow> string \<Rightarrow> int \<Rightarrow> tick list \<Rightarrow> DeviceBroadcaster \<times> wire_event list" where
  "drainAsync b i now env =
     (let (st, b1) = ensureState b i
      in if sending st then (b1, [])
         else (case clients b1 i of
                 None \<Rightarrow> (b1\<lparr>state := (state b1)(i \<mapsto> \<lparr>queue = [], sending = False\<rparr>)\<rparr>, [])
               | Some peers \<Rightarrow>
                   if peers = []
                   then (b1\<lparr>state := (state b1)(i \<mapsto> \<lparr>queue = [], sending = False\<rparr>)\<rparr>, [])
                   else (let s = drain_loop \<lparr>d_queue = queue st, d_peers = peers, d_now = now,
                                             d_env = env, d_log = []\<rparr>
                         in (b1\<lparr>clients := (clients b1)(i \<mapsto> d_peers s),
                                state := (state b1)(i \<mapsto> \<lparr>queue = d_queue s, sending = False\<rparr>)\<rparr>,
                             d_log s))))"

text \<open>
  \<^verbatim>\<open>FrameOut\<close> comes from the frame processor: rectangles with their payload, a codec tag
  and the full-frame flag. \<^verbatim>\<open>buildFramePackets\<close> belongs to the protocol encoder
  (protocol.js): it is a parameter of \<open>sendFrameChunked\<close>.
\<close>

record rect =
  r_x :: nat
  r_y :: nat
  r_w :: nat
  r_h :: nat
  r_data :: "8 word list"

record FrameOut =
  rects :: "rect list"
  encoding :: nat
  isFullFrame :: bool

type_synonym packetizer = "rect list \<Rightarrow> nat \<Rightarrow> 32 word \<Rightarrow> bool \<Rightarrow> int \<Rightarrow> packet list"

definition sendFrameChunked ::
  "packetizer \<Rightarrow> DeviceBroadcaster \<Rightarrow> string \<Rightarrow> FrameOut \<Rightarrow> 32 word \<Rightarrow> int \<Rightarrow> int \<Rightarrow> tick list
   \<Rightarrow> DeviceBroadcaster \<times> wire_event list" where
  "sendFrameChunked buildFramePackets b i out fid maxBytes now env =
     (case clients b i of
        None \<Rightarrow> (b, [])
      | Some peers \<Rightarrow>
          if peers = [] \<or> rects out = [] then (b, [])
          else (let pk = buildFramePackets (rects out) (encoding out) fid (isFullFrame out) maxBytes;
                    (st, b1) = ensureState b i;
                    b2 = b1\<lparr>state := (state b1)(i \<mapsto> st\<lparr>queue := queue st @ [\<lparr>o_frameId = fid, packets = pk\<rparr>]\<rparr>)\<rparr>
                in drainAsync b2 i now env))"

text \<open>The frames that the log shows on the wire, and the frames that the environment
  pushes.\<close>

fun frames_sent :: "wire_event list \<Rightarrow> OutFrame list" where
  "frames_sent [] = []"
| "frames_sent (WsSend c f pkt # es) = f # frames_sent es"
| "frames_sent (WsSendFailed c f pkt # es) = f # frames_sent es"
| "frames_sent (e # es) = frames_sent es"

definition arrived :: "tick list \<Rightarrow> OutFrame list" where
  "arrived env = concat (map arrivals env)"

section \<open>The device sessions (src/unnamed/part_000)\<close>

subsection \<open>Data\<close>

text \<open>
  The fields of \<^verbatim>\<open>DeviceConfig\<close> that the session code reads (its declaration is in
  config.js). Times are milliseconds, as integers.
\<close>

record DeviceConfig =
  width :: int
  height :: int
  tileSize :: int
  fullFrameTileCount :: int
  fullFrameAreaThreshold :: rat
  jpegQuality :: int
  fullFrameEvery :: int
  everyNthFrame :: int
  minFrameInterval :: int
  maxBytesPerMessage :: int
  rotation :: int

text \<open>
  Modelled from the spec: the FrameProcessor class (frameProcessor.js), whose code is
  missing. Of it the session code calls \<^verbatim>\<open>requestFullFrame()\<close>, which latches a one-shot
  flag that the next \<^verbatim>\<open>processFrame\<close> call consumes, and \<^verbatim>\<open>processFrameAsync\<close>, whose
  result is an input of the model.
\<close>

record FrameProcessor =
  fullFrameLatch :: bool

definition requestFullFrame :: "FrameProcessor \<Rightarrow> FrameProcessor" where
  "requestFullFrame p = p\<lparr>fullFrameLatch := True\<rparr>"

definition consumeLatch :: "FrameProcessor \<Rightarrow> FrameProcessor" where
  "consumeLatch p = p\<lparr>fullFrameLatch := False\<rparr>"

text \<open>
  A timer handle remembers the callback and the delay it was armed with. The session
  fields hold \<^verbatim>\<open>undefined\<close> (\<open>None\<close>) or a handle. \<open>targetId\<close> is the field
  \<^verbatim>\<open>id\<close> of the source, \<open>cdp\<close> the control session, named by its session id. The
  self-test runner takes no part in what follows and is left out.
\<close>

datatype callback = FlushPending | FallbackCapture

datatype Timeout = Timeout callback int

record DeviceSession =
  targetId :: string
  deviceId :: string
  cdp :: string
  cfg :: DeviceConfig
  url :: string
  lastActive :: int
  frameId :: "32 word"
  prevFrameHash :: "32 word"
  processor :: FrameProcessor
  pendingB64 :: "string option"
  throttleTimer :: "Timeout option"
  fallbackTimer :: "Timeout option"
  lastProcessedMs :: "int option"
  processing :: bool

text \<open>
  The commands sent over the browser control transport, and what a session callback does
  to the outside: a command sent on the root session or on a control session, a timer
  armed or cleared, the PNG decode (with the rotation of the config), the call of the frame
  processor, and the frame handed to the broadcaster. Console output is not modelled.
\<close>

datatype cdp_command =
    Target_createTarget int int
  | Target_attachToTarget string
  | Page_enable
  | Emulation_setDeviceMetricsOverride int int
  | Emulation_setEmulatedMedia
  | Page_startScreencast int int int
  | Page_screencastFrameAck string
  | Page_captureScreenshot
  | Page_stopScreencast
  | Target_closeTarget string

datatype cdp_peer = Root | Session string

datatype effect =
    CdpSend cdp_peer cdp_command
  | SetTimeout callback int
  | ClearTimeout Timeout
  | Decode int
  | ProcessFrame
  | SendFrameChunked string FrameOut "32 word" int

text \<open>JavaScript truthiness of an optional string and of an optional number.\<close>

definition truthy_str :: "string option \<Rightarrow> bool" where
  "truthy_str v = (case v of None \<Rightarrow> False | Some str \<Rightarrow> str \<noteq> [])"

definition truthy_num :: "int option \<Rightarrow> bool" where
  "truthy_num v = (case v of None \<Rightarrow> False | Some n \<Rightarrow> n \<noteq> 0)"

text \<open>
  What the callbacks of one session share: the session object \<^verbatim>\<open>newDevice\<close>, the two
  counters of the closure, and the broadcaster. A screencast event carries the session id
  to acknowledge and the frame data.
\<close>

record session_world =
  dev :: DeviceSession
  scFrameCount :: nat
  lastScLog :: int
  bc :: DeviceBroadcaster

record screencast_evt =
  e_sessionId :: string
  e_data :: "string option"

definition FALLBACK_DELAY_MS :: int where "FALLBACK_DELAY_MS = 800"
definition FALLBACK_REPEAT_MS :: int where "FALLBACK_REPEAT_MS = 2000"

subsection \<open>The screencast-frame handler\<close>

definition scheduleFallback :: "DeviceSession \<Rightarrow> DeviceSession \<times> effect list" where
  "scheduleFallback d =
     (d\<lparr>fallbackTimer := Some (Timeout FallbackCapture FALLBACK_DELAY_MS)\<rparr>,
      (case fallbackTimer d of None \<Rightarrow> [] | Some t \<Rightarrow> [ClearTimeout t])
        @ [SetTimeout FallbackCapture FALLBACK_DELAY_MS])"

text \<open>
  Line 236: the time since the last processed frame, \<open>None\<close> standing for
  \<^verbatim>\<open>Infinity\<close>; and line 238, where a \<open>since\<close> that is not finite counts as 0.
\<close>

definition since_processed :: "DeviceSession \<Rightarrow> int \<Rightarrow> int option" where
  "since_processed d now =
     (if truthy_num (lastProcessedMs d) then map_option (\<lambda>t. now - t) (lastProcessedMs d) else None)"

definition throttle_delay :: "DeviceSession \<Rightarrow> int \<Rightarrow> int" where
  "throttle_delay d now =
     max 0 (minFrameInterval (cfg d) - (case since_processed d now of Some e \<Rightarrow> e | None \<Rightarrow> 0))"

text \<open>
  The handler of \<^verbatim>\<open>Page.screencastFrame\<close>. \<open>now\<close> is the clock reading of line 224,
  \<open>now2\<close> that of line 233.
\<close>

definition screencastFrame ::
  "session_world \<Rightarrow> screencast_evt \<Rightarrow> int \<Rightarrow> int \<Rightarrow> session_world \<times> effect list" where
  "screencastFrame wd evt now now2 =
     (let ack = [CdpSend (Session (cdp (dev wd))) (Page_screencastFrameAck (e_sessionId evt))];
          (d1, fb) = scheduleFallback (dev wd);
          n = scFrameCount wd + 1;
          l = (if now - lastScLog wd > 1000 \<or> n \<le> 5 then now else lastScLog wd);
          w1 = wd\<lparr>dev := d1, scFrameCount := n, lastScLog := l\<rparr>
      in if getClientCount (bc wd) (deviceId d1) = 0 then (w1, ack @ fb)
         else (let d2 = d1\<lparr>lastActive := now2, pendingB64 := e_data evt\<rparr>
               in if throttleTimer d2 = None
                  then (let delay = throttle_delay d2 now
                        in (w1\<lparr>dev := d2\<lparr>throttleTimer := Some (Timeout FlushPending delay)\<rparr>\<rparr>,
                            ack @ fb @ [SetTimeout FlushPending delay]))
                  else (w1\<lparr>dev := d2\<rparr>, ack @ fb)))"

text \<open>
  What can run between the steps of a session callback that is suspended at an
  \<^verbatim>\<open>await\<close>: a screencast frame arrives, a client joins or leaves the device, or a
  reconnect with an equal config refreshes the session (lines 43 and 44). None of them
  writes \<open>frameId\<close> or \<open>prevFrameHash\<close>.
\<close>

datatype session_event =
    Ev_screencastFrame screencast_evt int int
  | Ev_addClient WebSocket
  | Ev_removeClient WebSocket
  | Ev_reconnect int

fun handle_event :: "session_world \<Rightarrow> session_event \<Rightarrow> session_world \<times> effect list" where
  "handle_event wd (Ev_screencastFrame evt now now2) = screencastFrame wd evt now now2"
| "handle_event wd (Ev_addClient ws) = (wd\<lparr>bc := fst (addClient (bc wd) (deviceId (dev wd)) ws)\<rparr>, [])"
| "handle_event wd (Ev_removeClient ws) = (wd\<lparr>bc := removeClient (bc wd) (deviceId (dev wd)) ws\<rparr>, [])"
| "handle_event wd (Ev_reconnect now) =
     (wd\<lparr>dev := (dev wd)\<lparr>lastActive := now, processor := requestFullFrame (processor (dev wd))\<rparr>\<rparr>, [])"

subsection \<open>The throttle-timer callback\<close>

text \<open>
  \<^verbatim>\<open>flushPending\<close> entered while a frame is being processed (lines 122 to 128): when a
  frame is pending the timer is armed again, at \<^verbatim>\<open>minFrameInterval\<close>.
\<close>

definition reschedule :: "session_world \<Rightarrow> session_world \<times> effect list" where
  "reschedule wd =
     (if truthy_str (pendingB64 (dev wd)) \<and> throttleTimer (dev wd) = None
      then (wd\<lparr>dev := (dev wd)\<lparr>throttleTimer := Some (Timeout FlushPending (minFrameInterval (cfg (dev wd))))\<rparr>\<rparr>,
            [SetTimeout FlushPending (minFrameInterval (cfg (dev wd)))])
      else (wd, []))"

text \<open>
  While \<^verbatim>\<open>flushPending\<close> awaits the decoder or the frame processor, the events above can
  happen, and the throttle timer can fire: \<^verbatim>\<open>flushPending\<close> is then entered with
  \<open>processing\<close> set, clears the handle and reschedules. (A fallback capture writes the
  pending slot, the timers and the latch of the processor only; it is a step of its own
  in a run.)
\<close>

datatype flush_event = During session_event | ThrottleFires

fun flush_interleave :: "session_world \<Rightarrow> flush_event list \<Rightarrow> session_world \<times> effect list" where
  "flush_interleave wd [] = (wd, [])"
| "flush_interleave wd (e # es) =
     (let (w1, out1) = (case e of
                          During ev \<Rightarrow> handle_event wd ev
                        | ThrottleFires \<Rightarrow> reschedule (wd\<lparr>dev := (dev wd)\<lparr>throttleTimer := None\<rparr>\<rparr>));
          (w2, out2) = flush_interleave w1 es
      in (w2, out1 @ out2))"

text \<open>
  The inputs of one run of \<^verbatim>\<open>flushPending\<close>: whether the decoder succeeds, what the frame
  processor returns (\<open>None\<close> when it raises), what happens during the two awaits, and the
  clock readings of lines 142 and 167. \<^verbatim>\<open>hash32\<close> (util.js) and the base64 decoding of
  \<^verbatim>\<open>Buffer.from\<close> are parameters.
\<close>

record flush_env =
  decoded :: bool
  processed :: "FrameOut option"
  during_decode :: "flush_event list"
  during_process :: "flush_event list"
  t_skip :: int
  t_end :: int

record externals =
  from_base64 :: "string \<Rightarrow> 8 word list"
  hash32 :: "8 word list \<Rightarrow> 32 word"

text \<open>The \<^verbatim>\<open>finally\<close> block, lines 165 to 173.\<close>

definition flush_finally :: "int \<Rightarrow> session_world \<times> effect list \<Rightarrow> session_world \<times> effect list" where
  "flush_finally t = (\<lambda>(wd, out).
     (let d = (dev wd)\<lparr>processing := False, lastProcessedMs := Some t\<rparr>
      in if truthy_str (pendingB64 d) \<and> throttleTimer d = None
         then (wd\<lparr>dev := d\<lparr>throttleTimer := Some (Timeout FlushPending 0)\<rparr>\<rparr>, out @ [SetTimeout FlushPending 0])
         else (wd\<lparr>dev := d\<rparr>, out)))"

text \<open>Lines 147 to 162, the body of the \<^verbatim>\<open>try\<close> after the hash check; an exception of
  the decoder or of the processor is caught at line 163.\<close>

definition flush_process :: "flush_env \<Rightarrow> session_world \<Rightarrow> session_world \<times> effect list" where
  "flush_process env wd =
     (let rot = Decode (rotation (cfg (dev wd)));
          (w1, out1) = flush_interleave wd (during_decode env)
      in if \<not> decoded env then (w1, rot # out1)
         else (let w2 = w1\<lparr>dev := (dev w1)\<lparr>processor := consumeLatch (processor (dev w1))\<rparr>\<rparr>;
                   (w3, out3) = flush_interleave w2 (during_process env)
               in case processed env of
                    None \<Rightarrow> (w3, rot # out1 @ ProcessFrame # out3)
                  | Some out \<Rightarrow>
                      if rects out \<noteq> []
                      then (let fid = frameId (dev w3) + 1
                            in (w3\<lparr>dev := (dev w3)\<lparr>frameId := fid\<rparr>\<rparr>,
                                rot # out1 @ ProcessFrame # out3
                                  @ [SendFrameChunked (deviceId (dev w3)) out fid (maxBytesPerMessage (cfg (dev w3)))]))
                      else (w3, rot # out1 @ ProcessFrame # out3)))"

definition flushPending :: "externals \<Rightarrow> session_world \<Rightarrow> flush_env \<Rightarrow> session_world \<times> effect list" where
  "flushPending lib wd env =
     (let w0 = wd\<lparr>dev := (dev wd)\<lparr>throttleTimer := None\<rparr>\<rparr>
      in if processing (dev w0) then reschedule w0
         else (case pendingB64 (dev w0) of
                 None \<Rightarrow> (w0, [])
               | Some b64 \<Rightarrow>
                   (let w1 = w0\<lparr>dev := (dev w0)\<lparr>pendingB64 := None\<rparr>\<rparr>
                    in if b64 = [] then (w1, [])
                       else (let w2 = w1\<lparr>dev := (dev w1)\<lparr>processing := True\<rparr>\<rparr>;
                                 h32 = hash32 lib (from_base64 lib b64)
                             in if prevFrameHash (dev w2) = h32
                                then flush_finally (t_end env)
                                       (w2\<lparr>dev := (dev w2)\<lparr>lastProcessedMs := Some (t_skip env)\<rparr>\<rparr>, [])
                                else flush_finally (t_end env)
                                       (flush_process env (w2\<lparr>dev := (dev w2)\<lparr>prevFrameHash := h32\<rparr>\<rparr>))))))"

subsection \<open>The fallback capture\<close>

text \<open>
  The answer to \<^verbatim>\<open>Page.captureScreenshot\<close> is an error of the transport or a result with
  its \<^verbatim>\<open>data\<close>, when it has one. While the request is awaited the events above can
  happen, and the throttle timer can fire and run \<^verbatim>\<open>flushPending\<close>.
\<close>

datatype cdp_error = TargetClosed | SessionClosed | CommandFailed

datatype fallback_event = Meanwhile session_event | ThrottleFlush flush_env

fun fallback_interleave ::
  "externals \<Rightarrow> session_world \<Rightarrow> fallback_event list \<Rightarrow> session_world \<times> effect list" where
  "fallback_interleave lib wd [] = (wd, [])"
| "fallback_interleave lib wd (e # es) =
     (let (w1, out1) = (case e of
                          Meanwhile ev \<Rightarrow> handle_event wd ev
                        | ThrottleFlush env \<Rightarrow> flushPending lib wd env);
          (w2, out2) = fallback_interleave lib w1 es
      in (w2, out1 @ out2))"

text \<open>Lines 199 to 205, on a result of the screenshot request.\<close>

definition take_screenshot :: "string option \<Rightarrow> session_world \<Rightarrow> session_world \<times> effect list" where
  "take_screenshot shot wd =
     (if truthy_str shot
      then (let d1 = (dev wd)\<lparr>processor := requestFullFrame (processor (dev wd)), pendingB64 := shot\<rparr>
            in if throttleTimer d1 = None
               then (wd\<lparr>dev := d1\<lparr>throttleTimer := Some (Timeout FlushPending 0)\<rparr>\<rparr>, [SetTimeout FlushPending 0])
               else (wd\<lparr>dev := d1\<rparr>, []))
      else (wd, []))"

text \<open>Lines 211 to 213.\<close>

definition rearm_fallback :: "session_world \<times> effect list \<Rightarrow> session_world \<times> effect list" where
  "rearm_fallback = (\<lambda>(wd, out).
     if fallbackTimer (dev wd) = None \<and> getClientCount (bc wd) (deviceId (dev wd)) > 0
     then (wd\<lparr>dev := (dev wd)\<lparr>fallbackTimer := Some (Timeout FallbackCapture FALLBACK_REPEAT_MS)\<rparr>\<rparr>,
           out @ [SetTimeout FallbackCapture FALLBACK_REPEAT_MS])
     else (wd, out))"

definition fallbackCapture ::
  "externals \<Rightarrow> session_world \<Rightarrow> cdp_error + string option \<Rightarrow> fallback_event list
   \<Rightarrow> session_world \<times> effect list" where
  "fallbackCapture lib wd answer during =
     (let w0 = wd\<lparr>dev := (dev wd)\<lparr>fallbackTimer := None\<rparr>\<rparr>
      in if getClientCount (bc w0) (deviceId (dev w0)) = 0
         then (w0\<lparr>dev := (dev w0)\<lparr>fallbackTimer := Some (Timeout FallbackCapture 5000)\<rparr>\<rparr>,
               [SetTimeout FallbackCapture 5000])
         else (let request = CdpSend (Session (cdp (dev w0))) Page_captureScreenshot;
                   (w1, out1) = fallback_interleave lib w0 during;
                   (w2, out2) = (case answer of
                                   Inl err \<Rightarrow> (w1, [])
                                 | Inr shot \<Rightarrow> take_screenshot shot w1)
               in rearm_fallback (w2, request # out1 @ out2)))"

text \<open>
  A run of a session: events, firings of the throttle timer and firings of the fallback
  timer, one after the other, with everything they do to the outside in order.
\<close>

datatype step =
    Incoming session_event
  | FlushTimer flush_env
  | FallbackTimer "cdp_error + string option" "fallback_event list"

fun session_step :: "externals \<Rightarrow> session_world \<Rightarrow> step \<Rightarrow> session_world \<times> effect list" where
  "session_step lib wd (Incoming ev) = handle_event wd ev"
| "session_step lib wd (FlushTimer env) = flushPending lib wd env"
| "session_step lib wd (FallbackTimer answer during) = fallbackCapture lib wd answer during"

fun session_run :: "externals \<Rightarrow> session_world \<Rightarrow> step list \<Rightarrow> session_world \<times> effect list" where
  "session_run lib wd [] = (wd, [])"
| "session_run lib wd (st # sts) =
     (let (w1, out1) = session_step lib wd st;
          (w2, out2) = session_run lib w1 sts
      in (w2, out1 @ out2))"

text \<open>The frame ids handed to the broadcaster, in order.\<close>

fun broadcast_ids :: "effect list \<Rightarrow> 32 word list" where
  "broadcast_ids [] = []"
| "broadcast_ids (SendFrameChunked i out fid mb # es) = fid # broadcast_ids es"
| "broadcast_ids (e # es) = broadcast_ids es"

subsection \<open>The registry\<close>

text \<open>
  The registry \<^verbatim>\<open>devices\<close> is a JavaScript Map from device id to session, kept in
  insertion order, and the guard \<^verbatim>\<open>_cleanupRunning\<close>. The browser is what the model needs
  of the control transport: whether \<^verbatim>\<open>getRoot()\<close> returns a session, the ids that the
  browser gives to a new target and to its control session, and which commands it rejects.
  A call is modelled as one uninterrupted run.
\<close>

record registry =
  devices :: "(string \<times> DeviceSession) list"
  cleanupRunning :: bool

record browser =
  root_ready :: bool
  new_targetId :: string
  new_sessionId :: string
  rejects :: "cdp_peer \<Rightarrow> cdp_command \<Rightarrow> bool"

datatype ensure_error = CdpNotReady | CommandRejected cdp_command

text \<open>Commands awaited one after the other: the first rejection ends the sequence.\<close>

fun cdp_sequence ::
  "(cdp_peer \<Rightarrow> cdp_command \<Rightarrow> bool) \<Rightarrow> (cdp_peer \<times> cdp_command) list
   \<Rightarrow> effect list \<times> cdp_command option" where
  "cdp_sequence rej [] = ([], None)"
| "cdp_sequence rej ((p, c) # cs) =
     (if rej p c then ([CdpSend p c], Some c)
      else (let (out, r) = cdp_sequence rej cs in (CdpSend p c # out, r)))"

text \<open>\<^verbatim>\<open>deleteDeviceAsync\<close>: errors of the two commands are swallowed.\<close>

definition deleteDeviceAsync :: "browser \<Rightarrow> registry \<Rightarrow> DeviceSession \<Rightarrow> registry \<times> effect list" where
  "deleteDeviceAsync br reg device =
     (if map_of (devices reg) (deviceId device) = None then (reg, [])
      else (reg\<lparr>devices := AList.delete (deviceId device) (devices reg)\<rparr>,
            (case throttleTimer device of None \<Rightarrow> [] | Some t \<Rightarrow> [ClearTimeout t])
            @ (case fallbackTimer device of None \<Rightarrow> [] | Some t \<Rightarrow> [ClearTimeout t])
            @ [CdpSend (Session (cdp device)) Page_stopScreencast]
            @ (if root_ready br then [CdpSend Root (Target_closeTarget (targetId device))] else [])))"

text \<open>
  Lines 52 to 112 and 244 of \<^verbatim>\<open>ensureDeviceAsync\<close>: the browser target and its control
  session are set up, the session object is built and registered, a full frame is
  requested and the fallback timer is started. \<open>prm\<close> is the flag
  \<^verbatim>\<open>PREFERS_REDUCED_MOTION\<close>; \<open>out0\<close> is what the call has done so far.
\<close>

definition createDevice ::
  "bool \<Rightarrow> browser \<Rightarrow> registry \<Rightarrow> string \<Rightarrow> DeviceConfig \<Rightarrow> int \<Rightarrow> effect list
   \<Rightarrow> (ensure_error + DeviceSession) \<times> registry \<times> effect list" where
  "createDevice prm br reg i c now out0 =
     (let tid = new_targetId br;
          sid = new_sessionId br;
          cmds = [(Root, Target_createTarget (width c) (height c)),
                  (Root, Target_attachToTarget tid),
                  (Session sid, Page_enable),
                  (Session sid, Emulation_setDeviceMetricsOverride (width c) (height c))]
                 @ (if prm then [(Session sid, Emulation_setEmulatedMedia)] else [])
                 @ [(Session sid, Page_startScreencast (width c) (height c) (everyNthFrame c))];
          (sent, failed) = cdp_sequence (rejects br) cmds
      in case failed of
           Some cmd \<Rightarrow> (Inl (CommandRejected cmd), reg, out0 @ sent)
         | None \<Rightarrow>
             (let newDevice = \<lparr>targetId = tid, deviceId = i, cdp = sid, cfg = c, url = [],
                                lastActive = now, frameId = 0, prevFrameHash = 0,
                                processor = requestFullFrame \<lparr>fullFrameLatch = False\<rparr>,
                                pendingB64 = None, throttleTimer = None, fallbackTimer = None,
                                lastProcessedMs = None, processing = False\<rparr>;
                  (d1, fb) = scheduleFallback newDevice
              in (Inr d1, reg\<lparr>devices := AList.update i d1 (devices reg)\<rparr>, out0 @ sent @ fb)))"

text \<open>\<^verbatim>\<open>ensureDeviceAsync\<close>; \<^verbatim>\<open>deviceConfigsEqual\<close> (config.js) is the parameter \<open>eq\<close>.\<close>

definition ensureDeviceAsync ::
  "(DeviceConfig \<Rightarrow> DeviceConfig \<Rightarrow> bool) \<Rightarrow> bool \<Rightarrow> browser \<Rightarrow> registry \<Rightarrow> string \<Rightarrow> DeviceConfig \<Rightarrow> int
   \<Rightarrow> (ensure_error + DeviceSession) \<times> registry \<times> effect list" where
  "ensureDeviceAsync eq prm br reg i c now =
     (if \<not> root_ready br then (Inl CdpNotReady, reg, [])
      else (case map_of (devices reg) i of
              None \<Rightarrow> createDevice prm br reg i c now []
            | Some device \<Rightarrow>
                if eq (cfg device) c
                then (let d1 = device\<lparr>lastActive := now, processor := requestFullFrame (processor device)\<rparr>
                      in (Inr d1, reg\<lparr>devices := AList.update i d1 (devices reg)\<rparr>, []))
                else (let (reg1, out1) = deleteDeviceAsync br reg device
                      in createDevice prm br reg1 i c now out1)))"

text \<open>\<^verbatim>\<open>cleanupIdleAsync\<close>: the loop of lines 259 to 265, and the whole function.\<close>

fun cleanup_loop :: "browser \<Rightarrow> registry \<Rightarrow> string list \<Rightarrow> registry \<times> effect list" where
  "cleanup_loop br reg [] = (reg, [])"
| "cleanup_loop br reg (i # ids) =
     (case map_of (devices reg) i of
        None \<Rightarrow> cleanup_loop br reg ids
      | Some device \<Rightarrow>
          (let (reg1, out1) = deleteDeviceAsync br reg device;
               (reg2, out2) = cleanup_loop br reg1 ids
           in (reg2, out1 @ out2)))"

definition staleIds :: "registry \<Rightarrow> int \<Rightarrow> int \<Rightarrow> string list" where
  "staleIds reg now ttlMs =
     map (\<lambda>(k, d). deviceId d) (filter (\<lambda>(k, d). now - lastActive d > ttlMs) (devices reg))"

definition cleanupIdleAsync :: "browser \<Rightarrow> registry \<Rightarrow> int \<Rightarrow> int \<Rightarrow> registry \<times> effect list" where
  "cleanupIdleAsync br reg now ttlMs =
     (if cleanupRunning reg then (reg, [])
      else (let (reg1, out) = cleanup_loop br (reg\<lparr>cleanupRunning := True\<rparr>) (staleIds reg now ttlMs)
            in (reg1\<lparr>cleanupRunning := False\<rparr>, out)))"

definition DEFAULT_TTL_MS :: int where "DEFAULT_TTL_MS = 5 * 60000"

section \<open>Example states\<close>

text \<open>
  Concrete sockets, frames and drain states on which the theorems are instantiated: a
  viewer that keeps up and one with a mebibyte still buffered; a drain that starts with
  three queued frames while a fourth arrives during its first suspension; a drain that has
  sent the first packet of \<open>frame3\<close> when \<open>frame4\<close> is queued; and a drain about to
  pace in front of the slow viewer.
\<close>

definition viewer :: WebSocket where
  "viewer = \<lparr>wsid = 1, readyState = OPEN, bufferedAmount = 0, send_throws = False\<rparr>"

definition slow_viewer :: WebSocket where
  "slow_viewer = \<lparr>wsid = 2, readyState = OPEN, bufferedAmount = 1048576, send_throws = False\<rparr>"

definition frame1 :: OutFrame where "frame1 = \<lparr>o_frameId = 1, packets = [[1]]\<rparr>"

definition frame2 :: OutFrame where "frame2 = \<lparr>o_frameId = 2, packets = [[2]]\<rparr>"

definition frame3 :: OutFrame where "frame3 = \<lparr>o_frameId = 3, packets = [[3], [4]]\<rparr>"

definition frame4 :: OutFrame where "frame4 = \<lparr>o_frameId = 4, packets = [[5]]\<rparr>"

definition backlog :: drain_st where
  "backlog = \<lparr>d_queue = [frame1, frame2, frame3], d_peers = [viewer], d_now = 1000,
         d_env = [\<lparr>arrivals = [frame4], peers_now = None, late = 0\<rparr>], d_log = []\<rparr>"

definition overtaken :: drain_st where
  "overtaken = \<lparr>d_queue = [frame4], d_peers = [viewer], d_now = 1000,
         d_env = [], d_log = [WsSend 1 frame3 [3], Yield]\<rparr>"

definition backlog_bc :: DeviceBroadcaster where
  "backlog_bc = \<lparr>clients = [''panel'' \<mapsto> [viewer]],
                 state = [''panel'' \<mapsto> \<lparr>queue = [frame1, frame2, frame3], sending = False\<rparr>]\<rparr>"

definition congested :: drain_st where
  "congested = \<lparr>d_queue = [], d_peers = [slow_viewer], d_now = 5000,
      d_env = [\<lparr>arrivals = [], peers_now = None, late = 0\<rparr>,
               \<lparr>arrivals = [frame4], peers_now = None, late = 0\<rparr>], d_log = []\<rparr>"

text \<open>
  The session side: the config of the ESPHome example of the README, a session as
  \<^verbatim>\<open>ensureDeviceAsync\<close> leaves it, worlds with and without a viewer, a screencast event, a
  stand-in for the hash and the base64 decoder, and inputs of \<^verbatim>\<open>flushPending\<close>.
\<close>

definition panel_cfg :: DeviceConfig where
  "panel_cfg = \<lparr>width = 480, height = 480, tileSize = 32, fullFrameTileCount = 4,
                 fullFrameAreaThreshold = 1 / 4, jpegQuality = 85, fullFrameEvery = 15,
                 everyNthFrame = 1, minFrameInterval = 80, maxBytesPerMessage = 14336, rotation = 0\<rparr>"

definition fresh_session :: DeviceSession where
  "fresh_session = \<lparr>targetId = ''T1'', deviceId = ''panel'', cdp = ''S1'', cfg = panel_cfg, url = [],
       lastActive = 1000, frameId = 0, prevFrameHash = 0, processor = \<lparr>fullFrameLatch = True\<rparr>,
       pendingB64 = None, throttleTimer = None,
       fallbackTimer = Some (Timeout FallbackCapture 800), lastProcessedMs = None, processing = False\<rparr>"

definition one_viewer :: DeviceBroadcaster where
  "one_viewer = \<lparr>clients = [''panel'' \<mapsto> [viewer]], state = [''panel'' \<mapsto> \<lparr>queue = [], sending = False\<rparr>]\<rparr>"

definition no_viewer :: DeviceBroadcaster where
  "no_viewer = \<lparr>clients = Map.empty, state = Map.empty\<rparr>"

definition watched :: session_world where
  "watched = \<lparr>dev = fresh_session, scFrameCount = 0, lastScLog = 0, bc = one_viewer\<rparr>"

definition unwatched :: session_world where
  "unwatched = \<lparr>dev = fresh_session, scFrameCount = 0, lastScLog = 0, bc = no_viewer\<rparr>"

definition png_evt :: screencast_evt where
  "png_evt = \<lparr>e_sessionId = ''7'', e_data = Some ''iVBORw0KGgo=''\<rparr>"

definition toy_lib :: externals where
  "toy_lib = \<lparr>from_base64 = map (\<lambda>c. of_nat (of_char c)), hash32 = (\<lambda>bs. of_nat (length bs))\<rparr>"

definition tile_out :: FrameOut where
  "tile_out = \<lparr>rects = [\<lparr>r_x = 0, r_y = 0, r_w = 32, r_h = 32, r_data = [255, 216]\<rparr>], encoding = 1, isFullFrame = False\<rparr>"

definition good_run :: flush_env where
  "good_run = \<lparr>decoded = True, processed = Some tile_out, during_decode = [], during_process = [],
                t_skip = 6000, t_end = 6020\<rparr>"

definition seen_before :: session_world where
  "seen_before = watched\<lparr>dev := fresh_session\<lparr>pendingB64 := Some ''iVBORw0KGgo='', prevFrameHash := 12,
                                                 lastProcessedMs := Some 5900\<rparr>\<rparr>"

definition at_wrap :: session_world where
  "at_wrap = watched\<lparr>dev := fresh_session\<lparr>pendingB64 := Some ''iVBORw0KGgo='', frameId := 0xFFFFFFFF\<rparr>\<rparr>"

definition throttled :: session_world where
  "throttled = watched\<lparr>dev := fresh_session\<lparr>lastProcessedMs := Some 4000\<rparr>\<rparr>"

definition armed :: session_world where
  "armed = watched\<lparr>dev := fresh_session\<lparr>throttleTimer := Some (Timeout FlushPending 80)\<rparr>\<rparr>"

definition deserted :: drain_st where
  "deserted = \<lparr>d_queue = [frame4], d_peers = [], d_now = 1000, d_env = [], d_log = [WsSend 1 frame3 [3], Yield]\<rparr>"

definition chrome :: browser where
  "chrome = \<lparr>root_ready = True, new_targetId = ''T2'', new_sessionId = ''S2'', rejects = (\<lambda>p c. False)\<rparr>"

definition png_frames :: "step list" where
  "png_frames = [Incoming (Ev_screencastFrame png_evt 100000 100001),
                 Incoming (Ev_screencastFrame png_evt 400000 400001)]"

definition one_session :: registry where
  "one_session = \<lparr>devices = [(''panel'', dev (fst (session_run toy_lib unwatched png_frames)))],
                  cleanupRunning = False\<rparr>"

definition wide_cfg :: DeviceConfig where
  "wide_cfg = panel_cfg\<lparr>width := 800\<rparr>"

definition panel_only :: registry where
  "panel_only = \<lparr>devices = [(''panel'', fresh_session)], cleanupRunning = False\<rparr>"

definition rebuilt :: DeviceSession where
  "rebuilt = \<lparr>targetId = ''T2'', deviceId = ''panel'', cdp = ''S2'', cfg = wide_cfg, url = [],
       lastActive = 9000, frameId = 0, prevFrameHash = 0, processor = \<lparr>fullFrameLatch = True\<rparr>,
       pendingB64 = None, throttleTimer = None,
       fallbackTimer = Some (Timeout FallbackCapture 800), lastProcessedMs = None, processing = False\<rparr>"

definition first_frame :: session_world where
  "first_frame = watched\<lparr>dev := fresh_session\<lparr>pendingB64 := Some ''iVBORw0KGgo=''\<rparr>\<rparr>"

definition streaming :: registry where
  "streaming = \<lparr>devices = [(''panel'', dev (fst (flushPending toy_lib first_frame good_run)))],
                cleanupRunning = False\<rparr>"

definition after_rebuild :: session_world where
  "after_rebuild = \<lparr>dev = rebuilt\<lparr>pendingB64 := Some ''iVBORw0KGgo=''\<rparr>, scFrameCount = 0, lastScLog = 0,
                    bc = one_viewer\<rparr>"

definition next_evt :: screencast_evt where
  "next_evt = \<lparr>e_sessionId = ''7'', e_data = Some ''iVBORw0KGgoAAAAN''\<rparr>"

definition two_flushes :: "step list" where
  "two_flushes = [FlushTimer good_run, Incoming (Ev_screencastFrame next_evt 7000 7001), FlushTimer good_run]"

section \<open>Auxiliary notions\<close>

text \<open>
  The \<open>n\<close> frame ids that follow \<open>f\<close>; and a step from \<open>wd\<close> with the result \<open>r\<close>
  counts up when the frames it hands to the broadcaster carry the ids that follow the id
  of the session, one by one, and the session ends at the last of them.
\<close>

definition ids_from :: "32 word \<Rightarrow> nat \<Rightarrow> 32 word list" where
  "ids_from f n = map (\<lambda>k. f + of_nat k) [1..<Suc n]"

definition counts_up :: "session_world \<Rightarrow> session_world \<times> effect list \<Rightarrow> bool" where
  "counts_up wd r = (\<exists>n. broadcast_ids (snd r) = ids_from (frameId (dev wd)) n
                        \<and> frameId (dev (fst r)) = frameId (dev wd) + of_nat n)"

text \<open>The delay that the specification states, \<open>max(0, minFrameInterval - (now - lastProcessedMs))\<close>:
  it has a value when \<open>lastProcessedMs\<close> has one.\<close>

definition claimed_delay :: "DeviceSession \<Rightarrow> int \<Rightarrow> int option" where
  "claimed_delay d now = map_option (\<lambda>t. max 0 (minFrameInterval (cfg d) - (now - t))) (lastProcessedMs d)"

text \<open>A step of a session run that is the arrival of a screencast frame.\<close>

fun is_frame :: "step \<Rightarrow> bool" where
  "is_frame (Incoming (Ev_screencastFrame evt now now2)) = True"
| "is_frame st = False"

text \<open>The targets that a list of effects closes and asks for, and what destroying a
  session does to the outside when the browser is ready.\<close>

fun closed_targets :: "effect list \<Rightarrow> string list" where
  "closed_targets [] = []"
| "closed_targets (CdpSend p (Target_closeTarget tid) # es) = tid # closed_targets es"
| "closed_targets (e # es) = closed_targets es"

fun created_targets :: "effect list \<Rightarrow> (int \<times> int) list" where
  "created_targets [] = []"
| "created_targets (CdpSend p (Target_createTarget wd ht) # es) = (wd, ht) # created_targets es"
| "created_targets (e # es) = created_targets es"

definition destroy :: "DeviceSession \<Rightarrow> effect list" where
  "destroy d =
     (case throttleTimer d of None \<Rightarrow> [] | Some t \<Rightarrow> [ClearTimeout t])
     @ (case fallbackTimer d of None \<Rightarrow> [] | Some t \<Rightarrow> [ClearTimeout t])
     @ [CdpSend (Session (cdp d)) Page_stopScreencast, CdpSend Root (Target_closeTarget (targetId d))]"

section \<open>Properties of the broadcaster\<close>

subsection \<open>Frames on the wire\<close>

text \<open>The frames a drain can still send are those of its queue and those the environment
  will push.\<close>

definition pool :: "drain_st \<Rightarrow> OutFrame set" where
  "pool s = set (d_queue s) \<union> set (arrived (d_env s))"

lemma frames_sent_append [simp]: "frames_sent (a @ b) = frames_sent a @ frames_sent b"
  by (induction a rule: frames_sent.induct) auto

lemma pool_suspend [simp]: "pool (suspend ev d s) = pool s"
  by (auto simp: pool_def suspend_def arrived_def split: list.splits)

lemma sent_suspend: "ev = Yield \<or> ev = Sleep n \<Longrightarrow> frames_sent (d_log (suspend ev d s)) = frames_sent (d_log s)"
  by (auto simp: suspend_def split: list.splits)

lemma sent_send_each:
  "set (frames_sent (d_log (send_each f pkt snap s))) \<subseteq> insert f (set (frames_sent (d_log s)))"
proof (induction snap arbitrary: s)
  case Nil
  then show ?case by auto
next
  case (Cons ws snap)
  consider (closed) "readyState ws \<noteq> OPEN"
    | (throws) "readyState ws = OPEN" "send_throws ws"
    | (ok) "readyState ws = OPEN" "\<not> send_throws ws" by blast
  then show ?case
  proof cases
    case closed
    with Cons.IH [of "s\<lparr>d_peers := set_delete ws (d_peers s)\<rparr>"] show ?thesis by simp
  next
    case throws
    with Cons.IH [of "s\<lparr>d_peers := set_delete ws (d_peers s),
        d_log := d_log s @ [WsSendFailed (wsid ws) f pkt, WsClose (wsid ws)]\<rparr>"]
    show ?thesis by auto
  next
    case ok
    with Cons.IH [of "s\<lparr>d_log := d_log s @ [WsSend (wsid ws) f pkt]\<rparr>"]
    show ?thesis by auto
  qed
qed

lemma pool_send_each [simp]: "pool (send_each f pkt snap s) = pool s"
  by (simp add: pool_def)

lemma send_packets_pool:
  "pool (snd (send_packets f pk s)) \<subseteq> pool s"
proof (induction pk arbitrary: s)
  case Nil
  then show ?case by simp
next
  case (Cons pkt rest)
  have "pool (snd (send_packets f rest (yield (send_each f pkt (d_peers s) s)))) \<subseteq> pool s"
    using Cons.IH [of "yield (send_each f pkt (d_peers s) s)"] by (simp add: yield_def)
  moreover have "pool (send_each f pkt (d_peers s) s\<lparr>d_queue := []\<rparr>) \<subseteq> pool s"
    by (auto simp: pool_def)
  ultimately show ?case by (simp add: Let_def)
qed

lemma send_packets_sent:
  "set (frames_sent (d_log (snd (send_packets f pk s)))) \<subseteq> insert f (set (frames_sent (d_log s)))"
proof (induction pk arbitrary: s)
  case Nil
  then show ?case by auto
next
  case (Cons pkt rest)
  let ?s1 = "send_each f pkt (d_peers s) s"
  have "set (frames_sent (d_log (snd (send_packets f rest (yield ?s1)))))
        \<subseteq> insert f (set (frames_sent (d_log (yield ?s1))))"
    by (rule Cons.IH)
  also have "frames_sent (d_log (yield ?s1)) = frames_sent (d_log ?s1)"
    by (simp add: yield_def sent_suspend)
  finally have "set (frames_sent (d_log (snd (send_packets f rest (yield ?s1)))))
        \<subseteq> insert f (set (frames_sent (d_log s)))"
    using sent_send_each [of f pkt "d_peers s" s] by auto
  then show ?case using sent_send_each [of f pkt "d_peers s" s] by (auto simp: Let_def)
qed

lemma pace_poll_keeps: "pool (pace_poll dl s) = pool s \<and> frames_sent (d_log (pace_poll dl s)) = frames_sent (d_log s)"
proof (induction dl s rule: pace_poll.induct)
  case (1 deadline s)
  show ?case
  proof (cases "d_now s < deadline \<and> d_queue s = [] \<and> \<not> maxBuf (d_peers s) \<le> BACKPRESSURE_LOW")
    case True
    then have eq: "pace_poll deadline s = pace_poll deadline (sleep DRAIN_POLL_MS s)"
      by (subst pace_poll.simps) simp
    from "1.IH" True eq show ?thesis by (simp add: sleep_def sent_suspend)
  next
    case False
    then have "pace_poll deadline s = s" by (subst pace_poll.simps) auto
    then show ?thesis by simp
  qed
qed

lemma pace_keeps: "pool (paceBeforeNextFrame s) = pool s \<and> frames_sent (d_log (paceBeforeNextFrame s)) = frames_sent (d_log s)"
  by (simp add: paceBeforeNextFrame_def Let_def pace_poll_keeps sleep_def sent_suspend)

lemma pool_clear: "pool (s\<lparr>d_queue := []\<rparr>) \<subseteq> pool s"
  by (auto simp: pool_def)

lemma finish_cycle_keeps:
  assumes "finish_cycle (r, s) = (c, s')"
  shows "pool s' \<subseteq> pool s \<and> frames_sent (d_log s') = frames_sent (d_log s)"
proof -
  from assms consider "s' = s" | "s' = s\<lparr>d_queue := []\<rparr>" | "s' = paceBeforeNextFrame s"
    by (cases r) (auto split: if_splits)
  then show ?thesis
    using pool_clear [of s] by cases (simp_all add: pace_keeps)
qed

lemma prune_last: "q \<noteq> [] \<Longrightarrow> prune q = [last q]"
  by (cases q) (auto simp: prune_def)

lemma cycle_unfold:
  "d_queue s \<noteq> [] \<Longrightarrow>
   cycle s = finish_cycle (send_packets (last (d_queue s)) (packets (last (d_queue s))) (s\<lparr>d_queue := []\<rparr>))"
  by (simp add: cycle_def prune_last)

lemma cycle_keeps:
  assumes "d_queue s \<noteq> []" and "cycle s = (c, s')"
  shows "pool s' \<subseteq> set (arrived (d_env s))"
    and "set (frames_sent (d_log s')) \<subseteq> insert (last (d_queue s)) (set (frames_sent (d_log s)))"
proof -
  let ?f = "last (d_queue s)"
  let ?s0 = "s\<lparr>d_queue := []\<rparr>"
  obtain r s1 where sp: "send_packets ?f (packets ?f) ?s0 = (r, s1)" by force
  with assms have fc: "finish_cycle (r, s1) = (c, s')" by (simp add: cycle_unfold)
  have "pool s1 \<subseteq> pool ?s0" using send_packets_pool [of ?f "packets ?f" ?s0] sp by simp
  moreover have "pool ?s0 = set (arrived (d_env s))" by (simp add: pool_def)
  ultimately show "pool s' \<subseteq> set (arrived (d_env s))" using finish_cycle_keeps [OF fc] by auto
  show "set (frames_sent (d_log s')) \<subseteq> insert ?f (set (frames_sent (d_log s)))"
    using send_packets_sent [of ?f "packets ?f" ?s0] sp finish_cycle_keeps [OF fc] by simp
qed

lemma drain_loop_sent:
  "d_queue s \<noteq> [] \<Longrightarrow>
   set (frames_sent (d_log (drain_loop s)))
     \<subseteq> set (frames_sent (d_log s)) \<union> {last (d_queue s)} \<union> set (arrived (d_env s))"
proof (induction s rule: drain_loop.induct)
  case (1 s)
  obtain c s' where cy: "cycle s = (c, s')" by force
  note k = cycle_keeps [OF "1.prems" cy]
  show ?case
  proof (cases "c \<and> d_queue s' \<noteq> []")
    case True
    then have eq: "drain_loop s = drain_loop s'"
      using "1.prems" cy by (subst drain_loop.simps) simp
    from True have "last (d_queue s') \<in> pool s'" by (simp add: pool_def)
    moreover have "set (arrived (d_env s')) \<subseteq> pool s'" by (simp add: pool_def)
    moreover have "set (frames_sent (d_log (drain_loop s')))
       \<subseteq> set (frames_sent (d_log s')) \<union> {last (d_queue s')} \<union> set (arrived (d_env s'))"
      using "1.IH" [OF "1.prems" cy [symmetric]] True by simp
    ultimately show ?thesis using k eq by auto
  next
    case False
    then have "drain_loop s = s'"
      using "1.prems" cy by (subst drain_loop.simps, cases c) (simp_all add: drain_loop.simps [of s'])
    then show ?thesis using k by auto
  qed
qed

lemma drain_loop_prune:
  "d_queue s \<noteq> [] \<Longrightarrow> drain_loop s = drain_loop (s\<lparr>d_queue := [last (d_queue s)]\<rparr>)"
proof -
  assume ne: "d_queue s \<noteq> []"
  have "cycle s = cycle (s\<lparr>d_queue := [last (d_queue s)]\<rparr>)"
    using ne by (simp add: cycle_unfold)
  then show ?thesis
    using ne by (subst drain_loop.simps, subst (2) drain_loop.simps) simp
qed

lemma send_packets_abort: "d_queue s \<noteq> [] \<Longrightarrow> send_packets f (pkt # rest) s = (Aborted, s)"
  by simp

lemma foldl_maxBuf_le:
  "foldl (\<lambda>m ws. if readyState ws = OPEN then max m (bufferedAmount ws) else m) m0 ps \<le> B
   \<longleftrightarrow> m0 \<le> B \<and> (\<forall>c \<in> set ps. readyState c = OPEN \<longrightarrow> bufferedAmount c \<le> B)"
  by (induction ps arbitrary: m0) auto

lemma maxBuf_le: "maxBuf ps \<le> B \<longleftrightarrow> (\<forall>c \<in> set ps. readyState c = OPEN \<longrightarrow> bufferedAmount c \<le> B)"
  by (simp add: maxBuf_def foldl_maxBuf_le)

lemma sleep_log: "d_log (sleep d s) = d_log s @ [Sleep d]"
  by (simp add: sleep_def suspend_def split: list.splits)

lemma sleep_now: "d_now s + d \<le> d_now (sleep d s)"
  by (simp add: sleep_def suspend_def split: list.splits)

lemma pace_poll_log:
  "\<exists>k. d_log (pace_poll dl s) = d_log s @ replicate k (Sleep DRAIN_POLL_MS)
       \<and> DRAIN_POLL_MS * int k \<le> max 0 (dl - d_now s + (DRAIN_POLL_MS - 1))"
proof (induction dl s rule: pace_poll.induct)
  case (1 deadline s)
  show ?case
  proof (cases "d_now s < deadline \<and> d_queue s = [] \<and> \<not> maxBuf (d_peers s) \<le> BACKPRESSURE_LOW")
    case True
    let ?s' = "sleep DRAIN_POLL_MS s"
    from True have eq: "pace_poll deadline s = pace_poll deadline ?s'"
      by (subst pace_poll.simps) simp
    from "1.IH" True obtain k where
      k: "d_log (pace_poll deadline ?s') = d_log ?s' @ replicate k (Sleep DRAIN_POLL_MS)"
         "DRAIN_POLL_MS * int k \<le> max 0 (deadline - d_now ?s' + (DRAIN_POLL_MS - 1))"
      by auto
    have "d_log (pace_poll deadline s) = d_log s @ replicate (Suc k) (Sleep DRAIN_POLL_MS)"
      using k(1) eq by (simp add: sleep_log)
    moreover have "DRAIN_POLL_MS * int (Suc k) \<le> max 0 (deadline - d_now s + (DRAIN_POLL_MS - 1))"
      using k(2) sleep_now [of s DRAIN_POLL_MS] True
      by (auto simp: DRAIN_POLL_MS_def max_def split: if_splits)
    ultimately show ?thesis by blast
  next
    case False
    then have "pace_poll deadline s = s" by (subst pace_poll.simps) auto
    then have "d_log (pace_poll deadline s) = d_log s @ replicate 0 (Sleep DRAIN_POLL_MS)" by simp
    then show ?thesis by (intro exI [of _ 0]) simp
  qed
qed

lemma pace_log:
  "\<exists>k\<le>400. d_log (paceBeforeNextFrame s) = d_log s @ Sleep 100 # replicate k (Sleep 5)"
proof -
  let ?s1 = "sleep MIN_FRAME_GAP_MS s"
  from pace_poll_log [of "d_now ?s1 + DRAIN_MAX_MS" ?s1] obtain k where
    k: "d_log (pace_poll (d_now ?s1 + DRAIN_MAX_MS) ?s1) = d_log ?s1 @ replicate k (Sleep DRAIN_POLL_MS)"
       "DRAIN_POLL_MS * int k \<le> max 0 (d_now ?s1 + DRAIN_MAX_MS - d_now ?s1 + (DRAIN_POLL_MS - 1))"
    by blast
  from k(2) have "k \<le> 400" by (simp add: DRAIN_POLL_MS_def DRAIN_MAX_MS_def)
  moreover have "d_log (paceBeforeNextFrame s) = d_log s @ Sleep 100 # replicate k (Sleep 5)"
    using k(1) by (simp add: paceBeforeNextFrame_def Let_def sleep_log MIN_FRAME_GAP_MS_def DRAIN_POLL_MS_def)
  ultimately show ?thesis by blast
qed

lemma pace_poll_rules:
  "d_now t < dl \<and> d_queue t \<noteq> [] \<longrightarrow> pace_poll dl t = t"
  "d_now t < dl \<and> d_queue t = [] \<and> (\<exists>c \<in> set (d_peers t). readyState c = OPEN \<and> BACKPRESSURE_LOW < bufferedAmount c)
     \<longrightarrow> pace_poll dl t = pace_poll dl (sleep DRAIN_POLL_MS t)"
  "(\<forall>c \<in> set (d_peers t). readyState c = OPEN \<longrightarrow> bufferedAmount c \<le> BACKPRESSURE_LOW) \<longrightarrow> pace_poll dl t = t"
  "dl \<le> d_now t \<longrightarrow> pace_poll dl t = t"
  by (subst pace_poll.simps, auto simp: maxBuf_le)+

subsection \<open>The drain\<close>

lemmas eval_defs =
  drain_loop.simps cycle_def prune_def yield_def suspend_def sleep_def paceBeforeNextFrame_def
  Let_def pace_poll.simps maxBuf_def MIN_FRAME_GAP_MS_def DRAIN_MAX_MS_def DRAIN_POLL_MS_def
  BACKPRESSURE_LOW_def set_delete_def

lemma drainAsync_log:
  assumes "state b i = Some st" "\<not> sending st" "clients b i = Some peers" "peers \<noteq> []"
  shows "snd (drainAsync b i now env)
         = d_log (drain_loop \<lparr>d_queue = queue st, d_peers = peers, d_now = now, d_env = env, d_log = []\<rparr>)"
  using assms by (simp add: drainAsync_def ensureState_def Let_def)

text \<open>
  Claim C1. Stale-frame dropping. A drain whose turn of the loop starts with two or more
  queued frames keeps the newest only, before anything is sent: it runs exactly as from a
  queue holding the newest alone, and every frame it puts on the wire is that newest frame
  or one pushed later by the environment, never one of the older queued frames. Inside the
  packet loop, when the queue is non-empty before a packet of the current frame \<open>f\<close>,
  that packet and the rest are not sent (the state, log included, is unchanged), the loop
  goes on as long as clients remain, and its next turn takes the newest queued frame.
\<close>

theorem drain_drops_stale_frames:
  "(state b i = Some st \<and> \<not> sending st \<and> clients b i = Some peers \<and> peers \<noteq> [] \<and> 2 \<le> length (queue st)
      \<longrightarrow> set (frames_sent (snd (drainAsync b i now env))) \<subseteq> {last (queue st)} \<union> set (arrived env))
   \<and> (2 \<le> length (d_queue s) \<longrightarrow>
         prune (d_queue s) = [last (d_queue s)]
       \<and> drain_loop s = drain_loop (s\<lparr>d_queue := [last (d_queue s)]\<rparr>)
       \<and> set (frames_sent (d_log (drain_loop s)))
           \<subseteq> set (frames_sent (d_log s)) \<union> {last (d_queue s)} \<union> set (arrived (d_env s)))
   \<and> (d_queue t \<noteq> [] \<longrightarrow>
         send_packets f (pkt # rest) t = (Aborted, t)
       \<and> finish_cycle (send_packets f (pkt # rest) t)
           = (if d_peers t = [] then (False, t\<lparr>d_queue := []\<rparr>) else (True, t))
       \<and> cycle t = finish_cycle (send_packets (last (d_queue t)) (packets (last (d_queue t))) (t\<lparr>d_queue := []\<rparr>)))"
proof (intro conjI impI)
  assume a: "state b i = Some st \<and> \<not> sending st \<and> clients b i = Some peers \<and> peers \<noteq> [] \<and> 2 \<le> length (queue st)"
  let ?s = "\<lparr>d_queue = queue st, d_peers = peers, d_now = now, d_env = env, d_log = []\<rparr>"
  from a have "d_queue ?s \<noteq> []" by auto
  from drain_loop_sent [OF this] a
  show "set (frames_sent (snd (drainAsync b i now env))) \<subseteq> {last (queue st)} \<union> set (arrived env)"
    by (simp add: drainAsync_log)
next
  assume "2 \<le> length (d_queue s)"
  then have ne: "d_queue s \<noteq> []" by auto
  then show "prune (d_queue s) = [last (d_queue s)]" by (rule prune_last)
  from ne show "drain_loop s = drain_loop (s\<lparr>d_queue := [last (d_queue s)]\<rparr>)" by (rule drain_loop_prune)
  from ne show "set (frames_sent (d_log (drain_loop s)))
           \<subseteq> set (frames_sent (d_log s)) \<union> {last (d_queue s)} \<union> set (arrived (d_env s))"
    by (rule drain_loop_sent)
next
  assume ne: "d_queue t \<noteq> []"
  then show "send_packets f (pkt # rest) t = (Aborted, t)" by simp
  from ne show "finish_cycle (send_packets f (pkt # rest) t)
           = (if d_peers t = [] then (False, t\<lparr>d_queue := []\<rparr>) else (True, t))" by simp
  from ne show "cycle t = finish_cycle (send_packets (last (d_queue t)) (packets (last (d_queue t))) (t\<lparr>d_queue := []\<rparr>))"
    by (rule cycle_unfold)
qed

lemma backlog_run:
  "d_log (drain_loop backlog) = [WsSend 1 frame3 [3], Yield, WsSend 1 frame4 [5], Yield, Sleep 100]"
  by (simp add: eval_defs backlog_def frame1_def frame2_def frame3_def frame4_def viewer_def)

theorem drain_drops_stale_frames_witness:
  "(state backlog_bc ''panel'' = Some \<lparr>queue = [frame1, frame2, frame3], sending = False\<rparr>
    \<and> clients backlog_bc ''panel'' = Some [viewer]
    \<and> set (frames_sent (snd (drainAsync backlog_bc ''panel'' 1000 [\<lparr>arrivals = [frame4], peers_now = None, late = 0\<rparr>])))
        \<subseteq> {frame3, frame4})
   \<and> (2 \<le> length (d_queue backlog)
    \<and> drain_loop backlog = drain_loop (backlog\<lparr>d_queue := [frame3]\<rparr>)
    \<and> set (frames_sent (d_log (drain_loop backlog))) \<subseteq> {frame3, frame4})
   \<and> (d_queue overtaken \<noteq> []
    \<and> send_packets frame3 [[4]] overtaken = (Aborted, overtaken)
    \<and> finish_cycle (send_packets frame3 [[4]] overtaken) = (True, overtaken)
    \<and> cycle overtaken = finish_cycle (send_packets frame4 (packets frame4) (overtaken\<lparr>d_queue := []\<rparr>)))"
proof -
  let ?st = "\<lparr>queue = [frame1, frame2, frame3], sending = False\<rparr>"
  let ?env = "[\<lparr>arrivals = [frame4], peers_now = None, late = 0\<rparr>]"
  note T = drain_drops_stale_frames [of backlog_bc "''panel''" ?st "[viewer]" 1000 ?env
      backlog overtaken frame3 "[4]" "[]"]
  have h1: "state backlog_bc ''panel'' = Some ?st \<and> \<not> sending ?st \<and> clients backlog_bc ''panel'' = Some [viewer]
            \<and> [viewer] \<noteq> [] \<and> 2 \<le> length (queue ?st)"
    by (simp add: backlog_bc_def)
  have h2: "2 \<le> length (d_queue backlog)" by (simp add: backlog_def)
  have h3: "d_queue overtaken \<noteq> []" by (simp add: overtaken_def)
  have e: "last (queue ?st) = frame3" "arrived ?env = [frame4]" "last (d_queue backlog) = frame3"
    "arrived (d_env backlog) = [frame4]" "d_log backlog = []" "last (d_queue overtaken) = frame4"
    "d_peers overtaken \<noteq> []"
    by (simp_all add: arrived_def backlog_def overtaken_def)
  from T h1 have "set (frames_sent (snd (drainAsync backlog_bc ''panel'' 1000 ?env)))
        \<subseteq> {last (queue ?st)} \<union> set (arrived ?env)" by blast
  then have c1: "set (frames_sent (snd (drainAsync backlog_bc ''panel'' 1000 ?env))) \<subseteq> {frame3, frame4}"
    unfolding e by auto
  from T h2 have "drain_loop backlog = drain_loop (backlog\<lparr>d_queue := [last (d_queue backlog)]\<rparr>)
       \<and> set (frames_sent (d_log (drain_loop backlog)))
           \<subseteq> set (frames_sent (d_log backlog)) \<union> {last (d_queue backlog)} \<union> set (arrived (d_env backlog))"
    by blast
  then have c2: "drain_loop backlog = drain_loop (backlog\<lparr>d_queue := [frame3]\<rparr>)
       \<and> set (frames_sent (d_log (drain_loop backlog))) \<subseteq> {frame3, frame4}"
    unfolding e by auto
  from T h3 have "send_packets frame3 [[4]] overtaken = (Aborted, overtaken)
       \<and> finish_cycle (send_packets frame3 [[4]] overtaken)
           = (if d_peers overtaken = [] then (False, overtaken\<lparr>d_queue := []\<rparr>) else (True, overtaken))
       \<and> cycle overtaken = finish_cycle (send_packets (last (d_queue overtaken))
             (packets (last (d_queue overtaken))) (overtaken\<lparr>d_queue := []\<rparr>))"
    by blast
  then have c3: "send_packets frame3 [[4]] overtaken = (Aborted, overtaken)
    \<and> finish_cycle (send_packets frame3 [[4]] overtaken) = (True, overtaken)
    \<and> cycle overtaken = finish_cycle (send_packets frame4 (packets frame4) (overtaken\<lparr>d_queue := []\<rparr>))"
    unfolding e using e(7) by simp
  from h1 h2 h3 c1 c2 c3 show ?thesis by blast
qed

text \<open>
  Claim C3. Pacing. After a frame whose packets were all sent, with clients remaining, the
  drain paces: it sleeps \<open>MIN_FRAME_GAP_MS = 100\<close>, then polls with sleeps of
  \<open>DRAIN_POLL_MS = 5\<close> until the deadline \<open>DRAIN_MAX_MS = 2000\<close> after the first sleep,
  which allows at most 400 polls. A poll before the deadline ends the pacing at once when a
  frame is queued; sleeps again when no frame is queued and an open client has more than
  \<open>BACKPRESSURE_LOW = 16 KiB\<close> buffered; and ends the pacing when no open client has more
  than that. At or after the deadline the pacing ends.
\<close>

theorem pacing_after_frame:
  "(\<exists>k\<le>400. d_log (paceBeforeNextFrame s) = d_log s @ Sleep 100 # replicate k (Sleep 5))
   \<and> paceBeforeNextFrame s = pace_poll (d_now (sleep 100 s) + 2000) (sleep 100 s)
   \<and> (d_peers s \<noteq> [] \<longrightarrow> finish_cycle (Completed, s) = (True, paceBeforeNextFrame s))
   \<and> (d_now t < dl \<and> d_queue t \<noteq> [] \<longrightarrow> pace_poll dl t = t)
   \<and> (d_now u < dl \<and> d_queue u = [] \<and> (\<exists>c \<in> set (d_peers u). readyState c = OPEN \<and> 16 * 1024 < bufferedAmount c)
        \<longrightarrow> pace_poll dl u = pace_poll dl (sleep 5 u) \<and> d_log (sleep 5 u) = d_log u @ [Sleep 5])
   \<and> ((\<forall>c \<in> set (d_peers v). readyState c = OPEN \<longrightarrow> bufferedAmount c \<le> 16 * 1024) \<longrightarrow> pace_poll dl v = v)
   \<and> (dl' \<le> d_now t \<longrightarrow> pace_poll dl' t = t)"
proof (intro conjI)
  show "\<exists>k\<le>400. d_log (paceBeforeNextFrame s) = d_log s @ Sleep 100 # replicate k (Sleep 5)"
    by (rule pace_log)
  show "paceBeforeNextFrame s = pace_poll (d_now (sleep 100 s) + 2000) (sleep 100 s)"
    by (simp add: paceBeforeNextFrame_def Let_def MIN_FRAME_GAP_MS_def DRAIN_MAX_MS_def)
  show "d_peers s \<noteq> [] \<longrightarrow> finish_cycle (Completed, s) = (True, paceBeforeNextFrame s)" by simp
  show "d_now t < dl \<and> d_queue t \<noteq> [] \<longrightarrow> pace_poll dl t = t" by (rule pace_poll_rules)
  show "d_now u < dl \<and> d_queue u = [] \<and> (\<exists>c \<in> set (d_peers u). readyState c = OPEN \<and> 16 * 1024 < bufferedAmount c)
        \<longrightarrow> pace_poll dl u = pace_poll dl (sleep 5 u) \<and> d_log (sleep 5 u) = d_log u @ [Sleep 5]"
    using pace_poll_rules(2) [of u dl] by (simp add: sleep_log BACKPRESSURE_LOW_def DRAIN_POLL_MS_def)
  show "(\<forall>c \<in> set (d_peers v). readyState c = OPEN \<longrightarrow> bufferedAmount c \<le> 16 * 1024) \<longrightarrow> pace_poll dl v = v"
    using pace_poll_rules(3) [of v dl] by (simp add: BACKPRESSURE_LOW_def)
  show "dl' \<le> d_now t \<longrightarrow> pace_poll dl' t = t" by (rule pace_poll_rules)
qed

lemma congested_run:
  "d_log (paceBeforeNextFrame congested) = [Sleep 100, Sleep 5]
   \<and> d_queue (paceBeforeNextFrame congested) = [frame4]"
  by (simp add: congested_def slow_viewer_def eval_defs)

theorem pacing_after_frame_witness:
  "(\<exists>k\<le>400. d_log (paceBeforeNextFrame congested) = d_log congested @ Sleep 100 # replicate k (Sleep 5))
   \<and> (d_peers congested \<noteq> [] \<and> finish_cycle (Completed, congested) = (True, paceBeforeNextFrame congested))
   \<and> (d_now overtaken < 3000 \<and> d_queue overtaken \<noteq> [] \<and> pace_poll 3000 overtaken = overtaken)
   \<and> (d_now (sleep 100 congested) < 7100 \<and> d_queue (sleep 100 congested) = []
      \<and> pace_poll 7100 (sleep 100 congested) = pace_poll 7100 (sleep 5 (sleep 100 congested)))
   \<and> pace_poll 3000 backlog = backlog
   \<and> (900 \<le> d_now overtaken \<and> pace_poll 900 overtaken = overtaken)"
proof -
  note T = pacing_after_frame [of congested overtaken 3000 "sleep 100 congested" backlog 900]
  have h1: "d_peers congested \<noteq> []" by (simp add: congested_def)
  have h2: "d_now overtaken < 3000 \<and> d_queue overtaken \<noteq> []" by (simp add: overtaken_def)
  have h3: "d_now (sleep 100 congested) < 3000 + 4100 \<and> d_queue (sleep 100 congested) = []
     \<and> (\<exists>c \<in> set (d_peers (sleep 100 congested)). readyState c = OPEN \<and> 16 * 1024 < bufferedAmount c)"
    by (simp add: congested_def sleep_def suspend_def slow_viewer_def)
  have h4: "\<forall>c \<in> set (d_peers backlog). readyState c = OPEN \<longrightarrow> bufferedAmount c \<le> 16 * 1024"
    by (simp add: backlog_def viewer_def)
  have h5: "900 \<le> d_now overtaken" by (simp add: overtaken_def)
  from T h1 h2 h4 h5 show ?thesis
    using pacing_after_frame [of congested "sleep 100 congested" 7100 "sleep 100 congested" backlog 900] h3
    by simp
qed

subsection \<open>Client registry\<close>

text \<open>
  Claim C9. \<^verbatim>\<open>addClient(deviceId, conn)\<close> on a device that already has clients closes
  every one of them, in the order of the set, and empties the set before \<open>conn\<close> is
  registered; after the call the set for the device is exactly \<open>conn\<close>, so the client
  count is 1.
\<close>

theorem addClient_replaces:
  "clients b i = Some old \<and> old \<noteq> [] \<longrightarrow>
     closeOld b i = (b\<lparr>clients := (clients b)(i \<mapsto> [])\<rparr>, map (\<lambda>sock. WsClose (wsid sock)) old)
   \<and> snd (addClient b i ws)
       = map (\<lambda>sock. WsClose (wsid sock)) old @ [WsOnce (wsid ws) ''close'', WsOnce (wsid ws) ''error'']
   \<and> clients (fst (addClient b i ws)) i = Some [ws]
   \<and> getClientCount (fst (addClient b i ws)) i = 1"
  by (simp add: closeOld_def addClient_def register_def set_add_def getClientCount_def Let_def)

theorem addClient_replaces_witness:
  "clients backlog_bc ''panel'' = Some [viewer] \<and> [viewer] \<noteq> []
   \<and> snd (addClient backlog_bc ''panel'' slow_viewer) = [WsClose 1, WsOnce 2 ''close'', WsOnce 2 ''error'']
   \<and> clients (fst (addClient backlog_bc ''panel'' slow_viewer)) ''panel'' = Some [slow_viewer]
   \<and> getClientCount (fst (addClient backlog_bc ''panel'' slow_viewer)) ''panel'' = 1"
proof -
  have h: "clients backlog_bc ''panel'' = Some [viewer] \<and> [viewer] \<noteq> []"
    by (simp add: backlog_bc_def)
  with addClient_replaces [of backlog_bc "''panel''" "[viewer]" slow_viewer]
  show ?thesis by (simp add: viewer_def slow_viewer_def)
qed

section \<open>Properties of the sessions\<close>

subsection \<open>What the callbacks leave alone\<close>

lemma broadcast_ids_append [simp]: "broadcast_ids (a @ b) = broadcast_ids a @ broadcast_ids b"
  by (induction a rule: broadcast_ids.induct) auto

lemma ids_from_0 [simp]: "ids_from f 0 = []"
  by (simp add: ids_from_def)

lemma ids_from_add: "ids_from f n @ ids_from (f + of_nat n) m = ids_from f (n + m)"
proof -
  have "[1..<Suc (n + m)] = [1..<Suc n] @ map (\<lambda>k. k + n) [1..<Suc m]"
    by (induction m) auto
  then show ?thesis by (simp add: ids_from_def o_def add.assoc add.commute)
qed

lemma counts_upI0:
  "broadcast_ids out = [] \<Longrightarrow> frameId (dev w') = frameId (dev wd) \<Longrightarrow> counts_up wd (w', out)"
  unfolding counts_up_def by (intro exI [of _ 0]) simp

lemma counts_up_trans:
  assumes "counts_up wd (w1, out1)" and "counts_up w1 (w2, out2)"
  shows "counts_up wd (w2, out1 @ out2)"
proof -
  from assms obtain n m where
    "broadcast_ids out1 = ids_from (frameId (dev wd)) n" "frameId (dev w1) = frameId (dev wd) + of_nat n"
    "broadcast_ids out2 = ids_from (frameId (dev w1)) m" "frameId (dev w2) = frameId (dev w1) + of_nat m"
    unfolding counts_up_def by auto
  then have "broadcast_ids (out1 @ out2) = ids_from (frameId (dev wd)) (n + m)
             \<and> frameId (dev w2) = frameId (dev wd) + of_nat (n + m)"
    by (simp add: ids_from_add)
  then show ?thesis unfolding counts_up_def by (intro exI [of _ "n + m"]) simp
qed

lemma screencastFrame_quiet:
  "broadcast_ids (snd (screencastFrame wd evt now now2)) = []
   \<and> frameId (dev (fst (screencastFrame wd evt now now2))) = frameId (dev wd)
   \<and> prevFrameHash (dev (fst (screencastFrame wd evt now now2))) = prevFrameHash (dev wd)"
  by (simp add: screencastFrame_def scheduleFallback_def Let_def split: option.splits)

lemma handle_event_quiet:
  "broadcast_ids (snd (handle_event wd ev)) = []
   \<and> frameId (dev (fst (handle_event wd ev))) = frameId (dev wd)
   \<and> prevFrameHash (dev (fst (handle_event wd ev))) = prevFrameHash (dev wd)"
  by (cases ev) (simp_all add: screencastFrame_quiet)

lemma reschedule_quiet:
  "broadcast_ids (snd (reschedule wd)) = []
   \<and> frameId (dev (fst (reschedule wd))) = frameId (dev wd)
   \<and> prevFrameHash (dev (fst (reschedule wd))) = prevFrameHash (dev wd)"
  by (simp add: reschedule_def)

lemma flush_interleave_quiet:
  "broadcast_ids (snd (flush_interleave wd es)) = []
   \<and> frameId (dev (fst (flush_interleave wd es))) = frameId (dev wd)
   \<and> prevFrameHash (dev (fst (flush_interleave wd es))) = prevFrameHash (dev wd)"
proof (induction es arbitrary: wd)
  case Nil
  then show ?case by simp
next
  case (Cons e es)
  show ?case
  proof (cases e)
    case (During ev)
    with Cons.IH [of "fst (handle_event wd ev)"] handle_event_quiet [of wd ev]
    show ?thesis by (simp add: split_beta)
  next
    case ThrottleFires
    with Cons.IH [of "fst (reschedule (wd\<lparr>dev := (dev wd)\<lparr>throttleTimer := None\<rparr>\<rparr>))"]
      reschedule_quiet [of "wd\<lparr>dev := (dev wd)\<lparr>throttleTimer := None\<rparr>\<rparr>"]
    show ?thesis by (simp add: split_beta)
  qed
qed

text \<open>The body of the \<^verbatim>\<open>try\<close>: the id moves by one exactly when a frame is handed over.\<close>

lemma flush_process_ids:
  "prevFrameHash (dev (fst (flush_process env wd))) = prevFrameHash (dev wd)
   \<and> (if decoded env \<and> (\<exists>out. processed env = Some out \<and> rects out \<noteq> [])
      then frameId (dev (fst (flush_process env wd))) = frameId (dev wd) + 1
         \<and> broadcast_ids (snd (flush_process env wd)) = [frameId (dev wd) + 1]
      else frameId (dev (fst (flush_process env wd))) = frameId (dev wd)
         \<and> broadcast_ids (snd (flush_process env wd)) = [])"
proof -
  obtain w1 out1 where i1: "flush_interleave wd (during_decode env) = (w1, out1)" by force
  let ?w2 = "w1\<lparr>dev := (dev w1)\<lparr>processor := consumeLatch (processor (dev w1))\<rparr>\<rparr>"
  obtain w3 out3 where i3: "flush_interleave ?w2 (during_process env) = (w3, out3)" by force
  from flush_interleave_quiet [of wd "during_decode env"] i1
  have q1: "broadcast_ids out1 = []" "frameId (dev w1) = frameId (dev wd)"
    "prevFrameHash (dev w1) = prevFrameHash (dev wd)" by simp_all
  from flush_interleave_quiet [of ?w2 "during_process env"] i3
  have q3: "broadcast_ids out3 = []" "frameId (dev w3) = frameId (dev w1)"
    "prevFrameHash (dev w3) = prevFrameHash (dev w1)" by simp_all
  show ?thesis
    using q1 q3 by (auto simp: flush_process_def i1 i3 Let_def split: option.splits)
qed

lemma flush_finally_keeps:
  "broadcast_ids (snd (flush_finally t (wd, out))) = broadcast_ids out
   \<and> frameId (dev (fst (flush_finally t (wd, out)))) = frameId (dev wd)
   \<and> prevFrameHash (dev (fst (flush_finally t (wd, out)))) = prevFrameHash (dev wd)
   \<and> lastProcessedMs (dev (fst (flush_finally t (wd, out)))) = Some t
   \<and> processing (dev (fst (flush_finally t (wd, out)))) = False"
  by (simp add: flush_finally_def Let_def)

lemma counts_up_one:
  "broadcast_ids out = [frameId (dev wd) + 1] \<Longrightarrow> frameId (dev w') = frameId (dev wd) + 1
   \<Longrightarrow> counts_up wd (w', out)"
  unfolding counts_up_def by (intro exI [of _ 1]) (simp add: ids_from_def)

lemma flushPending_counts_up: "counts_up wd (flushPending lib wd env)"
proof -
  let ?w0 = "wd\<lparr>dev := (dev wd)\<lparr>throttleTimer := None\<rparr>\<rparr>"
  show ?thesis
  proof (cases "processing (dev wd)")
    case True
    then have "flushPending lib wd env = reschedule ?w0" by (simp add: flushPending_def Let_def)
    with reschedule_quiet [of ?w0] show ?thesis
      by (cases "reschedule ?w0") (auto intro: counts_upI0)
  next
    case idle: False
    show ?thesis
    proof (cases "pendingB64 (dev wd)")
      case None
      with idle show ?thesis by (simp add: flushPending_def Let_def counts_upI0)
    next
      case (Some b64)
      let ?w2 = "wd\<lparr>dev := (dev wd)\<lparr>throttleTimer := None, pendingB64 := None, processing := True\<rparr>\<rparr>"
      let ?h = "hash32 lib (from_base64 lib b64)"
      let ?w3 = "?w2\<lparr>dev := (dev ?w2)\<lparr>prevFrameHash := ?h\<rparr>\<rparr>"
      consider (empty) "b64 = []" | (same) "b64 \<noteq> []" "prevFrameHash (dev wd) = ?h"
        | (new) "b64 \<noteq> []" "prevFrameHash (dev wd) \<noteq> ?h" by blast
      then show ?thesis
      proof cases
        case empty
        with idle Some show ?thesis by (simp add: flushPending_def Let_def counts_upI0)
      next
        case same
        with idle Some show ?thesis
          by (simp add: flushPending_def Let_def flush_finally_def counts_upI0)
      next
        case new
        with idle Some have eq: "flushPending lib wd env = flush_finally (t_end env) (flush_process env ?w3)"
          by (simp add: flushPending_def Let_def)
        obtain w4 out4 where p: "flush_process env ?w3 = (w4, out4)" by force
        from flush_process_ids [of env ?w3] p
        have "(frameId (dev w4) = frameId (dev wd) + 1 \<and> broadcast_ids out4 = [frameId (dev wd) + 1])
              \<or> (frameId (dev w4) = frameId (dev wd) \<and> broadcast_ids out4 = [])"
          by (auto split: if_splits)
        then show ?thesis
          using flush_finally_keeps [of "t_end env" w4 out4] eq p
          by (cases "flush_finally (t_end env) (w4, out4)") (auto intro: counts_upI0 counts_up_one)
      qed
    qed
  qed
qed

lemma counts_up_handle_event: "counts_up wd (handle_event wd ev)"
  using handle_event_quiet [of wd ev] by (cases "handle_event wd ev") (auto intro: counts_upI0)

lemma fallback_interleave_counts_up: "counts_up wd (fallback_interleave lib wd es)"
proof (induction es arbitrary: wd)
  case Nil
  then show ?case by (simp add: counts_upI0)
next
  case (Cons e es)
  obtain w1 out1 where h: "(case e of Meanwhile ev \<Rightarrow> handle_event wd ev
                              | ThrottleFlush env \<Rightarrow> flushPending lib wd env) = (w1, out1)" by force
  obtain w2 out2 where t: "fallback_interleave lib w1 es = (w2, out2)" by force
  have "counts_up wd (w1, out1)"
    using h counts_up_handle_event flushPending_counts_up by (cases e) (simp_all, metis+)
  moreover have "counts_up w1 (w2, out2)" using Cons.IH [of w1] t by simp
  ultimately show ?case using h t by (simp add: counts_up_trans)
qed

lemma take_screenshot_quiet:
  "broadcast_ids (snd (take_screenshot shot wd)) = []
   \<and> frameId (dev (fst (take_screenshot shot wd))) = frameId (dev wd)"
  by (simp add: take_screenshot_def Let_def)

lemma rearm_fallback_keeps:
  "broadcast_ids (snd (rearm_fallback (wd, out))) = broadcast_ids out
   \<and> frameId (dev (fst (rearm_fallback (wd, out)))) = frameId (dev wd)"
  by (simp add: rearm_fallback_def)

lemma fallbackCapture_counts_up: "counts_up wd (fallbackCapture lib wd answer during)"
proof -
  let ?w0 = "wd\<lparr>dev := (dev wd)\<lparr>fallbackTimer := None\<rparr>\<rparr>"
  show ?thesis
  proof (cases "getClientCount (bc wd) (deviceId (dev wd)) = 0")
    case True
    then show ?thesis by (simp add: fallbackCapture_def Let_def counts_upI0)
  next
    case False
    obtain w1 out1 where i: "fallback_interleave lib ?w0 during = (w1, out1)" by force
    obtain w2 out2 where a: "(case answer of Inl err \<Rightarrow> (w1, []) | Inr shot \<Rightarrow> take_screenshot shot w1) = (w2, out2)"
      by force
    let ?req = "CdpSend (Session (cdp (dev wd))) Page_captureScreenshot"
    from False i a have eq: "fallbackCapture lib wd answer during = rearm_fallback (w2, ?req # out1 @ out2)"
      by (simp add: fallbackCapture_def Let_def)
    from fallback_interleave_counts_up [of ?w0 lib during] i
    obtain n where n: "broadcast_ids out1 = ids_from (frameId (dev wd)) n"
      "frameId (dev w1) = frameId (dev wd) + of_nat n"
      unfolding counts_up_def by auto
    have q: "broadcast_ids out2 = [] \<and> frameId (dev w2) = frameId (dev w1)"
    proof (cases answer)
      case (Inl err)
      with a show ?thesis by simp
    next
      case (Inr shot)
      with a take_screenshot_quiet [of shot w1] show ?thesis by simp
    qed
    from n q rearm_fallback_keeps [of w2 "?req # out1 @ out2"]
    have "broadcast_ids (snd (rearm_fallback (w2, ?req # out1 @ out2))) = ids_from (frameId (dev wd)) n
          \<and> frameId (dev (fst (rearm_fallback (w2, ?req # out1 @ out2)))) = frameId (dev wd) + of_nat n"
      by simp
    then show ?thesis unfolding counts_up_def eq by blast
  qed
qed

lemma session_step_counts_up: "counts_up wd (session_step lib wd st)"
  by (cases st) (simp_all add: counts_up_handle_event flushPending_counts_up fallbackCapture_counts_up)

lemma session_run_counts_up: "counts_up wd (session_run lib wd sts)"
proof (induction sts arbitrary: wd)
  case Nil
  then show ?case by (simp add: counts_upI0)
next
  case (Cons st sts)
  obtain w1 out1 where h: "session_step lib wd st = (w1, out1)" by force
  obtain w2 out2 where t: "session_run lib w1 sts = (w2, out2)" by force
  have "counts_up wd (w1, out1)" using session_step_counts_up [of wd lib st] h by simp
  moreover have "counts_up w1 (w2, out2)" using Cons.IH [of w1] t by simp
  ultimately show ?case using h t by (simp add: counts_up_trans)
qed

subsection \<open>Frame ids\<close>

lemma first_frame_run:
  "flushPending toy_lib first_frame good_run
     = (watched\<lparr>dev := fresh_session\<lparr>frameId := 1, prevFrameHash := 12, processor := \<lparr>fullFrameLatch = False\<rparr>,
                                       lastProcessedMs := Some 6020\<rparr>\<rparr>,
        [Decode 0, ProcessFrame, SendFrameChunked ''panel'' tile_out 1 14336])"
  by (simp add: flushPending_def flush_process_def flush_finally_def Let_def first_frame_def watched_def
      fresh_session_def toy_lib_def good_run_def tile_out_def panel_cfg_def truthy_str_def consumeLatch_def)

text \<open>
  Claim C4, as stated, fails for the frames of a device: a session rebuilt by
  \<^verbatim>\<open>ensureDeviceAsync\<close> starts again at \<open>frameId = 0\<close>. Here the session of the device
  \<open>panel\<close> hands a frame to the broadcaster under the id 1, a reconnect with another width
  rebuilds the session, and the next frame of the device is handed over under the id 1
  again.
\<close>

theorem frameId_discipline_counterexample:
  "snd (flushPending toy_lib first_frame good_run)
     = [Decode 0, ProcessFrame, SendFrameChunked ''panel'' tile_out 1 14336]
   \<and> fst (ensureDeviceAsync (=) False chrome streaming ''panel'' wide_cfg 9000) = Inr rebuilt
   \<and> snd (flushPending toy_lib after_rebuild good_run)
     = [Decode 0, ProcessFrame, SendFrameChunked ''panel'' tile_out 1 14336]"
proof (intro conjI)
  show "snd (flushPending toy_lib first_frame good_run)
     = [Decode 0, ProcessFrame, SendFrameChunked ''panel'' tile_out 1 14336]"
    by (simp add: first_frame_run)
  show "fst (ensureDeviceAsync (=) False chrome streaming ''panel'' wide_cfg 9000) = Inr rebuilt"
    by (simp add: streaming_def first_frame_run ensureDeviceAsync_def createDevice_def deleteDeviceAsync_def
        scheduleFallback_def requestFullFrame_def Let_def chrome_def watched_def fresh_session_def
        wide_cfg_def panel_cfg_def rebuilt_def FALLBACK_DELAY_MS_def AList.delete_eq)
  show "snd (flushPending toy_lib after_rebuild good_run)
     = [Decode 0, ProcessFrame, SendFrameChunked ''panel'' tile_out 1 14336]"
    by (simp add: flushPending_def flush_process_def flush_finally_def Let_def after_rebuild_def rebuilt_def
        toy_lib_def good_run_def tile_out_def wide_cfg_def panel_cfg_def truthy_str_def consumeLatch_def)
qed

text \<open>
  Claim C4, amended. A run of \<^verbatim>\<open>flushPending\<close> in which the frame processor returns
  \<open>out\<close> increments \<open>frameId\<close>, modulo \<open>2^32\<close> (from \<open>0xFFFFFFFF\<close> to 0), exactly
  when \<open>out\<close> has rectangles, and then hands that one frame to the broadcaster under the
  new id; with no rectangles the id is unchanged and nothing is handed over. Over any run
  of one session the ids handed to the broadcaster are the successors of the session's id,
  one after the other, and the session ends at the last of them.
\<close>

theorem frameId_discipline:
  "(\<not> processing (dev wd) \<and> pendingB64 (dev wd) = Some b64 \<and> b64 \<noteq> []
      \<and> hash32 lib (from_base64 lib b64) \<noteq> prevFrameHash (dev wd)
      \<and> decoded env \<and> processed env = Some out \<longrightarrow>
        frameId (dev (fst (flushPending lib wd env)))
          = (if rects out \<noteq> [] then frameId (dev wd) + 1 else frameId (dev wd))
      \<and> broadcast_ids (snd (flushPending lib wd env))
          = (if rects out \<noteq> [] then [frameId (dev wd) + 1] else [])
      \<and> (frameId (dev wd) = 0xFFFFFFFF \<and> rects out \<noteq> [] \<longrightarrow> frameId (dev (fst (flushPending lib wd env))) = 0))
   \<and> (\<exists>n. broadcast_ids (snd (session_run lib wd sts)) = map (\<lambda>k. frameId (dev wd) + of_nat k) [1..<Suc n]
          \<and> frameId (dev (fst (session_run lib wd sts))) = frameId (dev wd) + of_nat n)"
proof (intro conjI impI)
  assume a: "\<not> processing (dev wd) \<and> pendingB64 (dev wd) = Some b64 \<and> b64 \<noteq> []
      \<and> hash32 lib (from_base64 lib b64) \<noteq> prevFrameHash (dev wd)
      \<and> decoded env \<and> processed env = Some out"
  let ?w3 = "wd\<lparr>dev := (dev wd)\<lparr>throttleTimer := None, pendingB64 := None, processing := True,
                                 prevFrameHash := hash32 lib (from_base64 lib b64)\<rparr>\<rparr>"
  from a have eq: "flushPending lib wd env = flush_finally (t_end env) (flush_process env ?w3)"
    by (auto simp: flushPending_def Let_def)
  obtain w4 out4 where p: "flush_process env ?w3 = (w4, out4)" by force
  from flush_process_ids [of env ?w3] p a
  have r: "frameId (dev w4) = (if rects out \<noteq> [] then frameId (dev wd) + 1 else frameId (dev wd))"
    "broadcast_ids out4 = (if rects out \<noteq> [] then [frameId (dev wd) + 1] else [])"
    by (auto split: if_splits)
  from flush_finally_keeps [of "t_end env" w4 out4] r eq p
  show f: "frameId (dev (fst (flushPending lib wd env)))
          = (if rects out \<noteq> [] then frameId (dev wd) + 1 else frameId (dev wd))"
    and "broadcast_ids (snd (flushPending lib wd env))
          = (if rects out \<noteq> [] then [frameId (dev wd) + 1] else [])"
    by simp_all
  assume "frameId (dev wd) = 0xFFFFFFFF \<and> rects out \<noteq> []"
  with f show "frameId (dev (fst (flushPending lib wd env))) = 0" by simp
next
  from session_run_counts_up [of wd lib sts]
  show "\<exists>n. broadcast_ids (snd (session_run lib wd sts)) = map (\<lambda>k. frameId (dev wd) + of_nat k) [1..<Suc n]
          \<and> frameId (dev (fst (session_run lib wd sts))) = frameId (dev wd) + of_nat n"
    unfolding counts_up_def ids_from_def .
qed

lemma wrap_run:
  "broadcast_ids (snd (session_run toy_lib at_wrap two_flushes)) = [0, 1]
   \<and> frameId (dev (fst (session_run toy_lib at_wrap two_flushes))) = 1"
  by (simp add: two_flushes_def at_wrap_def watched_def fresh_session_def one_viewer_def viewer_def
      next_evt_def good_run_def tile_out_def toy_lib_def panel_cfg_def
      flushPending_def flush_process_def flush_finally_def screencastFrame_def scheduleFallback_def
      throttle_delay_def since_processed_def truthy_num_def truthy_str_def consumeLatch_def
      getClientCount_def Let_def)

theorem frameId_discipline_witness:
  "(\<not> processing (dev at_wrap) \<and> pendingB64 (dev at_wrap) = Some ''iVBORw0KGgo='' \<and> ''iVBORw0KGgo='' \<noteq> []
      \<and> hash32 toy_lib (from_base64 toy_lib ''iVBORw0KGgo='') \<noteq> prevFrameHash (dev at_wrap)
      \<and> decoded good_run \<and> processed good_run = Some tile_out)
   \<and> (frameId (dev at_wrap) = 0xFFFFFFFF \<and> rects tile_out \<noteq> [])
   \<and> frameId (dev (fst (flushPending toy_lib at_wrap good_run))) = 0
   \<and> broadcast_ids (snd (flushPending toy_lib at_wrap good_run)) = [0]
   \<and> (\<exists>n. broadcast_ids (snd (session_run toy_lib at_wrap two_flushes))
              = map (\<lambda>k. frameId (dev at_wrap) + of_nat k) [1..<Suc n]
          \<and> frameId (dev (fst (session_run toy_lib at_wrap two_flushes))) = frameId (dev at_wrap) + of_nat n)
   \<and> broadcast_ids (snd (session_run toy_lib at_wrap two_flushes)) = [0, 1]"
proof -
  have h: "\<not> processing (dev at_wrap) \<and> pendingB64 (dev at_wrap) = Some ''iVBORw0KGgo='' \<and> ''iVBORw0KGgo='' \<noteq> []
      \<and> hash32 toy_lib (from_base64 toy_lib ''iVBORw0KGgo='') \<noteq> prevFrameHash (dev at_wrap)
      \<and> decoded good_run \<and> processed good_run = Some tile_out"
    by (simp add: at_wrap_def watched_def fresh_session_def toy_lib_def good_run_def)
  have k: "frameId (dev at_wrap) = 0xFFFFFFFF \<and> rects tile_out \<noteq> []"
    by (simp add: at_wrap_def tile_out_def)
  note T = frameId_discipline [of at_wrap "''iVBORw0KGgo=''" toy_lib good_run tile_out two_flushes]
  from T [THEN conjunct1, THEN mp, OF h] k
  have a: "frameId (dev (fst (flushPending toy_lib at_wrap good_run))) = 0
      \<and> broadcast_ids (snd (flushPending toy_lib at_wrap good_run)) = [0]"
    by simp
  from h k a T [THEN conjunct2] wrap_run show ?thesis by blast
qed

subsection \<open>Duplicate frames\<close>

text \<open>
  Claim C2. When the hash of the pending frame equals \<open>prevFrameHash\<close>,
  \<^verbatim>\<open>flushPending\<close> does nothing to the outside (no decode, no call of the processor, no
  frame handed to the broadcaster, no timer) and leaves the session as it was except that
  the pending slot and the timer handle are cleared and \<open>lastProcessedMs\<close> is set. In
  every run of \<^verbatim>\<open>flushPending\<close>, \<open>prevFrameHash\<close> afterwards is the hash of the pending
  frame when that frame was taken up and its hash differed, and is unchanged otherwise.
\<close>

theorem duplicate_frame_rejected:
  "(\<not> processing (dev wd) \<and> pendingB64 (dev wd) = Some b64 \<and> b64 \<noteq> []
      \<and> hash32 lib (from_base64 lib b64) = prevFrameHash (dev wd) \<longrightarrow>
        flushPending lib wd env
          = (wd\<lparr>dev := (dev wd)\<lparr>throttleTimer := None, pendingB64 := None, processing := False,
                                 lastProcessedMs := Some (t_end env)\<rparr>\<rparr>, []))
   \<and> prevFrameHash (dev (fst (flushPending lib wd env)))
       = (case pendingB64 (dev wd) of
            None \<Rightarrow> prevFrameHash (dev wd)
          | Some b64 \<Rightarrow> if \<not> processing (dev wd) \<and> b64 \<noteq> []
                        \<and> hash32 lib (from_base64 lib b64) \<noteq> prevFrameHash (dev wd)
                      then hash32 lib (from_base64 lib b64) else prevFrameHash (dev wd))"
proof (intro conjI impI)
  assume "\<not> processing (dev wd) \<and> pendingB64 (dev wd) = Some b64 \<and> b64 \<noteq> []
      \<and> hash32 lib (from_base64 lib b64) = prevFrameHash (dev wd)"
  then show "flushPending lib wd env
          = (wd\<lparr>dev := (dev wd)\<lparr>throttleTimer := None, pendingB64 := None, processing := False,
                                 lastProcessedMs := Some (t_end env)\<rparr>\<rparr>, [])"
    by (auto simp: flushPending_def flush_finally_def Let_def truthy_str_def)
next
  let ?w0 = "wd\<lparr>dev := (dev wd)\<lparr>throttleTimer := None\<rparr>\<rparr>"
  show "prevFrameHash (dev (fst (flushPending lib wd env)))
       = (case pendingB64 (dev wd) of
            None \<Rightarrow> prevFrameHash (dev wd)
          | Some b64 \<Rightarrow> if \<not> processing (dev wd) \<and> b64 \<noteq> []
                        \<and> hash32 lib (from_base64 lib b64) \<noteq> prevFrameHash (dev wd)
                      then hash32 lib (from_base64 lib b64) else prevFrameHash (dev wd))"
  proof (cases "processing (dev wd)")
    case True
    then have "flushPending lib wd env = reschedule ?w0" by (simp add: flushPending_def Let_def)
    with True reschedule_quiet [of ?w0] show ?thesis by (simp split: option.splits)
  next
    case idle: False
    show ?thesis
    proof (cases "pendingB64 (dev wd)")
      case None
      with idle show ?thesis by (simp add: flushPending_def Let_def)
    next
      case (Some b64)
      let ?h = "hash32 lib (from_base64 lib b64)"
      let ?w3 = "wd\<lparr>dev := (dev wd)\<lparr>throttleTimer := None, pendingB64 := None, processing := True,
                                     prevFrameHash := ?h\<rparr>\<rparr>"
      consider (empty) "b64 = []" | (same) "b64 \<noteq> []" "prevFrameHash (dev wd) = ?h"
        | (new) "b64 \<noteq> []" "prevFrameHash (dev wd) \<noteq> ?h" by blast
      then show ?thesis
      proof cases
        case empty
        with idle Some show ?thesis by (simp add: flushPending_def Let_def)
      next
        case same
        with idle Some show ?thesis by (simp add: flushPending_def Let_def flush_finally_def)
      next
        case new
        with idle Some have eq: "flushPending lib wd env = flush_finally (t_end env) (flush_process env ?w3)"
          by (simp add: flushPending_def Let_def)
        obtain w4 out4 where p: "flush_process env ?w3 = (w4, out4)" by force
        from flush_process_ids [of env ?w3] p have "prevFrameHash (dev w4) = ?h" by simp
        with flush_finally_keeps [of "t_end env" w4 out4] eq p idle Some new
        show ?thesis by auto
      qed
    qed
  qed
qed

theorem duplicate_frame_rejected_witness:
  "(\<not> processing (dev seen_before) \<and> pendingB64 (dev seen_before) = Some ''iVBORw0KGgo='' \<and> ''iVBORw0KGgo='' \<noteq> []
      \<and> hash32 toy_lib (from_base64 toy_lib ''iVBORw0KGgo='') = prevFrameHash (dev seen_before))
   \<and> snd (flushPending toy_lib seen_before good_run) = []
   \<and> lastProcessedMs (dev (fst (flushPending toy_lib seen_before good_run))) = Some 6020
   \<and> prevFrameHash (dev (fst (flushPending toy_lib seen_before good_run))) = 12"
proof -
  have h: "\<not> processing (dev seen_before) \<and> pendingB64 (dev seen_before) = Some ''iVBORw0KGgo='' \<and> ''iVBORw0KGgo='' \<noteq> []
      \<and> hash32 toy_lib (from_base64 toy_lib ''iVBORw0KGgo='') = prevFrameHash (dev seen_before)"
    by (simp add: seen_before_def watched_def fresh_session_def toy_lib_def)
  with duplicate_frame_rejected [of seen_before "''iVBORw0KGgo=''" toy_lib good_run]
  have "flushPending toy_lib seen_before good_run
          = (seen_before\<lparr>dev := (dev seen_before)\<lparr>throttleTimer := None, pendingB64 := None, processing := False,
                                 lastProcessedMs := Some (t_end good_run)\<rparr>\<rparr>, [])"
    by blast
  with h show ?thesis by (simp add: good_run_def seen_before_def watched_def fresh_session_def)
qed

subsection \<open>The throttle timer\<close>

lemma scheduleFallback_fields:
  "throttleTimer (fst (scheduleFallback d)) = throttleTimer d
   \<and> pendingB64 (fst (scheduleFallback d)) = pendingB64 d
   \<and> lastProcessedMs (fst (scheduleFallback d)) = lastProcessedMs d
   \<and> cfg (fst (scheduleFallback d)) = cfg d
   \<and> deviceId (fst (scheduleFallback d)) = deviceId d
   \<and> fst (scheduleFallback d) = d\<lparr>fallbackTimer := Some (Timeout FallbackCapture FALLBACK_DELAY_MS)\<rparr>"
  by (simp add: scheduleFallback_def)

lemma throttle_delay_cases:
  "throttle_delay d now
     = (case lastProcessedMs d of
          None \<Rightarrow> max 0 (minFrameInterval (cfg d))
        | Some t \<Rightarrow> if t = 0 then max 0 (minFrameInterval (cfg d))
                    else max 0 (minFrameInterval (cfg d) - (now - t)))"
  by (simp add: throttle_delay_def since_processed_def truthy_num_def split: option.splits)

text \<open>
  Claim C7, as stated, fails on a session that has not processed a frame yet: with
  \<open>lastProcessedMs\<close> unset the time since the last processed frame is infinite (line 236)
  and the stated delay has no value, yet the timer is armed with \<open>minFrameInterval\<close>, 80
  here, not with 0.
\<close>

theorem throttle_timer_armed_counterexample:
  "getClientCount (bc watched) (deviceId (dev watched)) = 1
   \<and> throttleTimer (dev watched) = None
   \<and> lastProcessedMs (dev watched) = None
   \<and> since_processed (dev watched) 5000 = None
   \<and> claimed_delay (dev watched) 5000 = None
   \<and> throttleTimer (dev (fst (screencastFrame watched png_evt 5000 5000))) = Some (Timeout FlushPending 80)"
  by (simp add: watched_def fresh_session_def one_viewer_def getClientCount_def since_processed_def
      truthy_num_def claimed_delay_def screencastFrame_def scheduleFallback_def Let_def
      throttle_delay_def panel_cfg_def)

text \<open>
  Claim C7, amended. A screencast frame received with clients connected and no throttle
  timer armed stores the frame and arms the timer, with delay
  \<open>max(0, minFrameInterval - (now - lastProcessedMs))\<close> when \<open>lastProcessedMs\<close> is set
  (and not 0), and with delay \<open>max(0, minFrameInterval)\<close> when it is not. When it is set
  and the time since is at least \<open>minFrameInterval\<close> the delay is 0. A frame received
  while a timer is armed overwrites the pending slot, leaves the timer handle as it is and
  arms no throttle timer.
\<close>

theorem throttle_timer_armed:
  "(getClientCount (bc wd) (deviceId (dev wd)) \<noteq> 0 \<and> throttleTimer (dev wd) = None \<longrightarrow>
      throttleTimer (dev (fst (screencastFrame wd evt now now2)))
        = Some (Timeout FlushPending
            (case lastProcessedMs (dev wd) of
               None \<Rightarrow> max 0 (minFrameInterval (cfg (dev wd)))
             | Some t \<Rightarrow> if t = 0 then max 0 (minFrameInterval (cfg (dev wd)))
                         else max 0 (minFrameInterval (cfg (dev wd)) - (now - t))))
    \<and> last (snd (screencastFrame wd evt now now2))
        = SetTimeout FlushPending (throttle_delay (dev wd) now)
    \<and> pendingB64 (dev (fst (screencastFrame wd evt now now2))) = e_data evt)
   \<and> (getClientCount (bc wd) (deviceId (dev wd)) \<noteq> 0 \<and> throttleTimer (dev wd) = None
        \<and> lastProcessedMs (dev wd) = Some t \<and> t \<noteq> 0 \<and> minFrameInterval (cfg (dev wd)) \<le> now - t \<longrightarrow>
      throttleTimer (dev (fst (screencastFrame wd evt now now2))) = Some (Timeout FlushPending 0))
   \<and> (getClientCount (bc wd') (deviceId (dev wd')) \<noteq> 0 \<and> throttleTimer (dev wd') = Some tm \<longrightarrow>
      throttleTimer (dev (fst (screencastFrame wd' evt now now2))) = Some tm
    \<and> pendingB64 (dev (fst (screencastFrame wd' evt now now2))) = e_data evt
    \<and> SetTimeout FlushPending d \<notin> set (snd (screencastFrame wd' evt now now2)))"
  by (auto simp: screencastFrame_def scheduleFallback_def Let_def throttle_delay_cases
      throttle_delay_def since_processed_def truthy_num_def split: option.splits)

theorem throttle_timer_armed_witness:
  "(getClientCount (bc throttled) (deviceId (dev throttled)) \<noteq> 0 \<and> throttleTimer (dev throttled) = None
      \<and> lastProcessedMs (dev throttled) = Some 4000 \<and> (4000::int) \<noteq> 0
      \<and> minFrameInterval (cfg (dev throttled)) \<le> 5000 - 4000)
   \<and> throttleTimer (dev (fst (screencastFrame throttled png_evt 5000 5001))) = Some (Timeout FlushPending 0)
   \<and> last (snd (screencastFrame throttled png_evt 5000 5001)) = SetTimeout FlushPending 0
   \<and> (getClientCount (bc armed) (deviceId (dev armed)) \<noteq> 0
      \<and> throttleTimer (dev armed) = Some (Timeout FlushPending 80))
   \<and> throttleTimer (dev (fst (screencastFrame armed png_evt 5000 5001))) = Some (Timeout FlushPending 80)
   \<and> pendingB64 (dev (fst (screencastFrame armed png_evt 5000 5001))) = e_data png_evt
   \<and> SetTimeout FlushPending 0 \<notin> set (snd (screencastFrame armed png_evt 5000 5001))"
proof -
  have h1: "getClientCount (bc throttled) (deviceId (dev throttled)) \<noteq> 0 \<and> throttleTimer (dev throttled) = None
      \<and> lastProcessedMs (dev throttled) = Some 4000 \<and> (4000::int) \<noteq> 0
      \<and> minFrameInterval (cfg (dev throttled)) \<le> 5000 - 4000"
    by (simp add: throttled_def watched_def fresh_session_def one_viewer_def getClientCount_def panel_cfg_def)
  have h2: "getClientCount (bc armed) (deviceId (dev armed)) \<noteq> 0
      \<and> throttleTimer (dev armed) = Some (Timeout FlushPending 80)"
    by (simp add: armed_def watched_def fresh_session_def one_viewer_def getClientCount_def)
  have e: "throttle_delay (dev throttled) 5000 = 0"
    by (simp add: throttle_delay_cases throttled_def watched_def fresh_session_def panel_cfg_def)
  note T = throttle_timer_armed [of throttled png_evt 5000 5001 4000 armed "Timeout FlushPending 80" 0]
  from T h1 have a: "throttleTimer (dev (fst (screencastFrame throttled png_evt 5000 5001))) = Some (Timeout FlushPending 0)
    \<and> last (snd (screencastFrame throttled png_evt 5000 5001)) = SetTimeout FlushPending (throttle_delay (dev throttled) 5000)"
    by blast
  from T h2 have b: "throttleTimer (dev (fst (screencastFrame armed png_evt 5000 5001))) = Some (Timeout FlushPending 80)
    \<and> pendingB64 (dev (fst (screencastFrame armed png_evt 5000 5001))) = e_data png_evt
    \<and> SetTimeout FlushPending 0 \<notin> set (snd (screencastFrame armed png_evt 5000 5001))"
    by blast
  from h1 h2 a b e show ?thesis by simp
qed

subsection \<open>Errors of the fallback capture\<close>

text \<open>
  Claim C8, as stated, fails: with a client connected, a screenshot request that fails
  because the target is closed is followed by the fallback timer being armed again, at
  2000 ms.
\<close>

theorem fallback_error_counterexample:
  "getClientCount (bc watched) (deviceId (dev watched)) = 1
   \<and> fallbackCapture toy_lib watched (Inl TargetClosed) []
       = (watched\<lparr>dev := (dev watched)\<lparr>fallbackTimer := Some (Timeout FallbackCapture 2000)\<rparr>\<rparr>,
          [CdpSend (Session ''S1'') Page_captureScreenshot, SetTimeout FallbackCapture 2000])"
  by (simp add: watched_def fresh_session_def one_viewer_def getClientCount_def fallbackCapture_def
      rearm_fallback_def FALLBACK_REPEAT_MS_def Let_def)

text \<open>
  Claim C8, amended. With clients connected, an error of the screenshot request is
  swallowed: the fallback capture ends as it does when the answer carries no data,
  whatever the error. It then arms the fallback timer again at \<open>FALLBACK_REPEAT_MS\<close>
  (2000 ms) if no fallback timer was armed meanwhile and clients are still connected; when
  nothing else happened meanwhile the session is unchanged apart from that timer.
\<close>

theorem fallback_error_swallowed:
  "getClientCount (bc wd) (deviceId (dev wd)) \<noteq> 0 \<longrightarrow>
     fallbackCapture lib wd (Inl err) during = fallbackCapture lib wd (Inr None) during
   \<and> fallbackCapture lib wd (Inl err) during
       = rearm_fallback
           (fst (fallback_interleave lib (wd\<lparr>dev := (dev wd)\<lparr>fallbackTimer := None\<rparr>\<rparr>) during),
            CdpSend (Session (cdp (dev wd))) Page_captureScreenshot
              # snd (fallback_interleave lib (wd\<lparr>dev := (dev wd)\<lparr>fallbackTimer := None\<rparr>\<rparr>) during))
   \<and> fallbackCapture lib wd (Inl err) []
       = (wd\<lparr>dev := (dev wd)\<lparr>fallbackTimer := Some (Timeout FallbackCapture 2000)\<rparr>\<rparr>,
          [CdpSend (Session (cdp (dev wd))) Page_captureScreenshot, SetTimeout FallbackCapture 2000])"
  by (simp add: fallbackCapture_def take_screenshot_def truthy_str_def Let_def split_beta
      rearm_fallback_def FALLBACK_REPEAT_MS_def)

theorem fallback_error_swallowed_witness:
  "getClientCount (bc watched) (deviceId (dev watched)) \<noteq> 0
   \<and> fallbackCapture toy_lib watched (Inl SessionClosed) [] = fallbackCapture toy_lib watched (Inr None) []
   \<and> fallbackCapture toy_lib watched (Inl SessionClosed) []
       = (watched\<lparr>dev := (dev watched)\<lparr>fallbackTimer := Some (Timeout FallbackCapture 2000)\<rparr>\<rparr>,
          [CdpSend (Session (cdp (dev watched))) Page_captureScreenshot, SetTimeout FallbackCapture 2000])"
proof -
  have h: "getClientCount (bc watched) (deviceId (dev watched)) \<noteq> 0"
    by (simp add: watched_def fresh_session_def one_viewer_def getClientCount_def)
  with fallback_error_swallowed [of watched toy_lib SessionClosed "[]"] show ?thesis by blast
qed

subsection \<open>No viewers\<close>

lemma cycle_without_peers:
  "d_peers s = [] \<Longrightarrow> fst (cycle s) = False \<and> d_log (snd (cycle s)) = d_log s"
proof (cases "d_queue s = []")
  case True
  then show ?thesis by (simp add: cycle_def prune_def)
next
  case False
  assume np: "d_peers s = []"
  show ?thesis
  proof (cases "packets (last (d_queue s))")
    case Nil
    with False np show ?thesis by (simp add: cycle_unfold)
  next
    case (Cons pkt rest)
    with False np show ?thesis by (simp add: cycle_unfold Let_def)
  qed
qed

lemma send_packets_without_peers:
  "d_peers s = [] \<Longrightarrow> d_log (snd (send_packets f pk s)) = d_log s"
  by (cases pk) (simp_all add: Let_def)

lemma no_clients_cases:
  "getClientCount b i = 0 \<longleftrightarrow> clients b i = None \<or> clients b i = Some []"
  by (simp add: getClientCount_def split: option.splits)

lemma screencastFrame_ack:
  "hd (snd (screencastFrame wd evt now now2))
     = CdpSend (Session (cdp (dev wd))) (Page_screencastFrameAck (e_sessionId evt))"
  by (simp add: screencastFrame_def Let_def split_beta)

lemma screencastFrame_unwatched:
  "getClientCount (bc wd) (deviceId (dev wd)) = 0 \<Longrightarrow>
   screencastFrame wd evt now now2
     = (wd\<lparr>dev := (dev wd)\<lparr>fallbackTimer := Some (Timeout FallbackCapture FALLBACK_DELAY_MS)\<rparr>,
           scFrameCount := scFrameCount wd + 1,
           lastScLog := (if now - lastScLog wd > 1000 \<or> scFrameCount wd + 1 \<le> 5 then now else lastScLog wd)\<rparr>,
        CdpSend (Session (cdp (dev wd))) (Page_screencastFrameAck (e_sessionId evt))
          # (case fallbackTimer (dev wd) of None \<Rightarrow> [] | Some t \<Rightarrow> [ClearTimeout t])
          @ [SetTimeout FallbackCapture FALLBACK_DELAY_MS])"
  by (simp add: screencastFrame_def scheduleFallback_def Let_def)

text \<open>
  Claim C6. For a device with no client: \<^verbatim>\<open>sendFrameChunked\<close> leaves the broadcaster as
  it is and sends nothing, and a drain sends nothing; a running drain whose client set is
  empty sends nothing more, and stops at the start of its next turn; the screencast-frame
  handler leaves the pending slot and the throttle timer alone and arms no throttle timer;
  the fallback capture sends no screenshot request and only arms its timer at 5000 ms.
  With or without clients, the first thing the handler does is to acknowledge the frame.
\<close>

theorem no_viewers_no_work:
  "(getClientCount b i = 0 \<longrightarrow>
      sendFrameChunked buildFramePackets b i out fid maxBytes t env = (b, [])
    \<and> snd (drainAsync b i t env) = [])
   \<and> (d_peers s = [] \<longrightarrow> fst (cycle s) = False \<and> d_log (snd (cycle s)) = d_log s
                        \<and> d_log (snd (send_packets f pk s)) = d_log s)
   \<and> (getClientCount (bc wd) (deviceId (dev wd)) = 0 \<longrightarrow>
        pendingB64 (dev (fst (screencastFrame wd evt now now2))) = pendingB64 (dev wd)
      \<and> throttleTimer (dev (fst (screencastFrame wd evt now now2))) = throttleTimer (dev wd)
      \<and> SetTimeout FlushPending d \<notin> set (snd (screencastFrame wd evt now now2))
      \<and> fallbackCapture lib wd answer during
          = (wd\<lparr>dev := (dev wd)\<lparr>fallbackTimer := Some (Timeout FallbackCapture 5000)\<rparr>\<rparr>,
             [SetTimeout FallbackCapture 5000]))
   \<and> hd (snd (screencastFrame wd evt now now2))
       = CdpSend (Session (cdp (dev wd))) (Page_screencastFrameAck (e_sessionId evt))"
proof (intro conjI impI)
  assume z: "getClientCount b i = 0"
  then show "sendFrameChunked buildFramePackets b i out fid maxBytes t env = (b, [])"
    by (auto simp: no_clients_cases sendFrameChunked_def)
  from z show "snd (drainAsync b i t env) = []"
    by (auto simp: no_clients_cases drainAsync_def ensureState_def Let_def split: option.splits)
next
  assume "d_peers s = []"
  then show "fst (cycle s) = False" "d_log (snd (cycle s)) = d_log s"
    "d_log (snd (send_packets f pk s)) = d_log s"
    by (simp_all add: cycle_without_peers send_packets_without_peers)
next
  assume z: "getClientCount (bc wd) (deviceId (dev wd)) = 0"
  note u = screencastFrame_unwatched [OF z, of evt now now2]
  show "pendingB64 (dev (fst (screencastFrame wd evt now now2))) = pendingB64 (dev wd)"
    "throttleTimer (dev (fst (screencastFrame wd evt now now2))) = throttleTimer (dev wd)"
    by (simp_all add: u)
  show "SetTimeout FlushPending d \<notin> set (snd (screencastFrame wd evt now now2))"
    by (simp add: u split: option.splits)
  from z show "fallbackCapture lib wd answer during
          = (wd\<lparr>dev := (dev wd)\<lparr>fallbackTimer := Some (Timeout FallbackCapture 5000)\<rparr>\<rparr>,
             [SetTimeout FallbackCapture 5000])"
    by (simp add: fallbackCapture_def Let_def)
next
  show "hd (snd (screencastFrame wd evt now now2))
       = CdpSend (Session (cdp (dev wd))) (Page_screencastFrameAck (e_sessionId evt))"
    by (rule screencastFrame_ack)
qed

theorem no_viewers_no_work_witness:
  "getClientCount no_viewer ''panel'' = 0
   \<and> sendFrameChunked (\<lambda>rs enc fid full mb. [[1]]) no_viewer ''panel'' tile_out 1 14336 1000 [] = (no_viewer, [])
   \<and> snd (drainAsync no_viewer ''panel'' 1000 []) = []
   \<and> d_peers deserted = [] \<and> fst (cycle deserted) = False \<and> d_log (snd (cycle deserted)) = d_log deserted
   \<and> d_log (snd (send_packets frame3 [[4]] deserted)) = d_log deserted
   \<and> getClientCount (bc unwatched) (deviceId (dev unwatched)) = 0
   \<and> pendingB64 (dev (fst (screencastFrame unwatched png_evt 5000 5001))) = None
   \<and> throttleTimer (dev (fst (screencastFrame unwatched png_evt 5000 5001))) = None
   \<and> SetTimeout FlushPending 80 \<notin> set (snd (screencastFrame unwatched png_evt 5000 5001))
   \<and> fallbackCapture toy_lib unwatched (Inr (Some ''iVBORw0KGgo='')) []
          = (unwatched\<lparr>dev := (dev unwatched)\<lparr>fallbackTimer := Some (Timeout FallbackCapture 5000)\<rparr>\<rparr>,
             [SetTimeout FallbackCapture 5000])
   \<and> hd (snd (screencastFrame unwatched png_evt 5000 5001))
       = CdpSend (Session ''S1'') (Page_screencastFrameAck ''7'')"
proof -
  have h1: "getClientCount no_viewer ''panel'' = 0" by (simp add: no_viewer_def getClientCount_def)
  have h2: "d_peers deserted = []" by (simp add: deserted_def)
  have h3: "getClientCount (bc unwatched) (deviceId (dev unwatched)) = 0"
    by (simp add: unwatched_def no_viewer_def getClientCount_def)
  have e: "pendingB64 (dev unwatched) = None" "throttleTimer (dev unwatched) = None"
    "cdp (dev unwatched) = ''S1''" "e_sessionId png_evt = ''7''"
    by (simp_all add: unwatched_def fresh_session_def png_evt_def)
  from no_viewers_no_work [of no_viewer "''panel''" "\<lambda>rs enc fid full mb. [[1]]" tile_out 1 14336 1000 "[]"
      deserted frame3 "[[4]]" unwatched png_evt 5000 5001 80 toy_lib "Inr (Some ''iVBORw0KGgo='')" "[]"] h1 h2 h3
  show ?thesis unfolding e by simp
qed

subsection \<open>Idle eviction\<close>

lemma deleteDeviceAsync_lookup:
  "map_of (devices (fst (deleteDeviceAsync br reg d))) k
     = (if k = deviceId d then None else map_of (devices reg) k)"
  by (simp add: deleteDeviceAsync_def delete_conv)

lemma deleteDeviceAsync_flag:
  "cleanupRunning (fst (deleteDeviceAsync br reg d)) = cleanupRunning reg"
  by (simp add: deleteDeviceAsync_def)

lemma cleanup_loop_flag:
  "cleanupRunning (fst (cleanup_loop br reg ids)) = cleanupRunning reg"
proof (induction ids arbitrary: reg)
  case Nil
  then show ?case by simp
next
  case (Cons j ids)
  show ?case
  proof (cases "map_of (devices reg) j")
    case None
    with Cons.IH [of reg] show ?thesis by simp
  next
    case (Some dj)
    with Cons.IH [of "fst (deleteDeviceAsync br reg dj)"] deleteDeviceAsync_flag [of br reg dj]
    show ?thesis by (simp add: split_beta)
  qed
qed

lemma cleanup_loop_gone:
  "map_of (devices reg) k = None \<Longrightarrow> map_of (devices (fst (cleanup_loop br reg ids))) k = None"
proof (induction ids arbitrary: reg)
  case Nil
  then show ?case by simp
next
  case (Cons j ids)
  show ?case
  proof (cases "map_of (devices reg) j")
    case None
    with Cons show ?thesis by simp
  next
    case (Some dj)
    have "map_of (devices (fst (deleteDeviceAsync br reg dj))) k = None"
      using Cons.prems by (simp add: deleteDeviceAsync_lookup)
    from Cons.IH [OF this] Some show ?thesis by (simp add: split_beta)
  qed
qed

lemma cleanup_loop_removes:
  assumes "i \<in> set ids"
    and "map_of (devices reg) i = None \<or> (\<exists>d. map_of (devices reg) i = Some d \<and> deviceId d = i)"
  shows "map_of (devices (fst (cleanup_loop br reg ids))) i = None"
  using assms
proof (induction ids arbitrary: reg)
  case Nil
  then show ?case by simp
next
  case (Cons j ids)
  show ?case
  proof (cases "map_of (devices reg) j")
    case None
    show ?thesis
    proof (cases "j = i")
      case True
      with None cleanup_loop_gone [of reg i br ids] show ?thesis by simp
    next
      case False
      with Cons.prems have "i \<in> set ids" by simp
      from Cons.IH [OF this Cons.prems(2)] None show ?thesis by simp
    qed
  next
    case (Some dj)
    let ?reg1 = "fst (deleteDeviceAsync br reg dj)"
    have keep: "map_of (devices ?reg1) i = None \<or> (\<exists>d. map_of (devices ?reg1) i = Some d \<and> deviceId d = i)"
      using Cons.prems(2) by (auto simp: deleteDeviceAsync_lookup)
    show ?thesis
    proof (cases "j = i")
      case True
      with Some Cons.prems(2) have "deviceId dj = i" by auto
      then have "map_of (devices ?reg1) i = None" by (simp add: deleteDeviceAsync_lookup)
      from cleanup_loop_gone [OF this] Some show ?thesis by (simp add: split_beta)
    next
      case False
      with Cons.prems have "i \<in> set ids" by simp
      from Cons.IH [OF this keep] Some show ?thesis by (simp add: split_beta)
    qed
  qed
qed

lemma cleanupIdle_evicts:
  assumes "\<not> cleanupRunning reg" and "map_of (devices reg) i = Some d" and "deviceId d = i"
    and "now - lastActive d > ttlMs"
  shows "map_of (devices (fst (cleanupIdleAsync br reg now ttlMs))) i = None"
proof -
  from assms(2) have "(i, d) \<in> set (devices reg)" by (rule map_of_SomeD)
  with assms(3,4) have "i \<in> set (staleIds reg now ttlMs)"
    by (force simp: staleIds_def)
  moreover have "map_of (devices (reg\<lparr>cleanupRunning := True\<rparr>)) i = None
      \<or> (\<exists>d. map_of (devices (reg\<lparr>cleanupRunning := True\<rparr>)) i = Some d \<and> deviceId d = i)"
    using assms(2,3) by simp
  ultimately have "map_of (devices (fst (cleanup_loop br (reg\<lparr>cleanupRunning := True\<rparr>) (staleIds reg now ttlMs)))) i = None"
    by (rule cleanup_loop_removes)
  with assms(1) show ?thesis by (simp add: cleanupIdleAsync_def split_beta)
qed

lemma frames_unwatched:
  "getClientCount (bc wd) (deviceId (dev wd)) = 0 \<Longrightarrow> list_all is_frame sts \<Longrightarrow>
   lastActive (dev (fst (session_run lib wd sts))) = lastActive (dev wd)
   \<and> pendingB64 (dev (fst (session_run lib wd sts))) = pendingB64 (dev wd)
   \<and> throttleTimer (dev (fst (session_run lib wd sts))) = throttleTimer (dev wd)
   \<and> deviceId (dev (fst (session_run lib wd sts))) = deviceId (dev wd)
   \<and> bc (fst (session_run lib wd sts)) = bc wd"
proof (induction sts arbitrary: wd)
  case Nil
  then show ?case by simp
next
  case (Cons st sts)
  from Cons.prems(2) obtain evt now now2 where st: "st = Incoming (Ev_screencastFrame evt now now2)"
    by (cases st rule: is_frame.cases) auto
  let ?w1 = "fst (screencastFrame wd evt now now2)"
  note u = screencastFrame_unwatched [OF Cons.prems(1), of evt now now2]
  have z: "getClientCount (bc ?w1) (deviceId (dev ?w1)) = 0" using Cons.prems(1) by (simp add: u)
  from Cons.prems(2) have "list_all is_frame sts" by simp
  from Cons.IH [OF z this] show ?case by (simp add: st split_beta u)
qed

text \<open>
  Claim C10. A screencast frame received while the device has no client changes nothing
  of the session but the fallback timer, and does nothing to the outside but the
  acknowledgment and the rescheduling of the fallback. So after any number of such frames
  \<open>lastActive\<close>, the pending slot and the throttle timer are as before, and once
  \<open>lastActive\<close> is older than the TTL \<^verbatim>\<open>cleanupIdleAsync\<close> removes the session from
  the registry.
\<close>

theorem idle_without_viewers:
  "(getClientCount (bc wd) (deviceId (dev wd)) = 0 \<longrightarrow>
      dev (fst (screencastFrame wd evt now now2))
        = (dev wd)\<lparr>fallbackTimer := Some (Timeout FallbackCapture 800)\<rparr>
    \<and> bc (fst (screencastFrame wd evt now now2)) = bc wd
    \<and> snd (screencastFrame wd evt now now2)
        = CdpSend (Session (cdp (dev wd))) (Page_screencastFrameAck (e_sessionId evt))
            # (case fallbackTimer (dev wd) of None \<Rightarrow> [] | Some t \<Rightarrow> [ClearTimeout t])
            @ [SetTimeout FallbackCapture 800])
   \<and> (getClientCount (bc wd) (deviceId (dev wd)) = 0 \<and> list_all is_frame sts \<longrightarrow>
        lastActive (dev (fst (session_run lib wd sts))) = lastActive (dev wd)
      \<and> pendingB64 (dev (fst (session_run lib wd sts))) = pendingB64 (dev wd)
      \<and> throttleTimer (dev (fst (session_run lib wd sts))) = throttleTimer (dev wd))
   \<and> (getClientCount (bc wd) (deviceId (dev wd)) = 0 \<and> list_all is_frame sts
        \<and> \<not> cleanupRunning reg
        \<and> map_of (devices reg) (deviceId (dev wd)) = Some (dev (fst (session_run lib wd sts)))
        \<and> t - lastActive (dev wd) > ttlMs \<longrightarrow>
        map_of (devices (fst (cleanupIdleAsync br reg t ttlMs))) (deviceId (dev wd)) = None)"
proof (intro conjI impI)
  assume z: "getClientCount (bc wd) (deviceId (dev wd)) = 0"
  note u = screencastFrame_unwatched [OF z, of evt now now2]
  show "dev (fst (screencastFrame wd evt now now2))
        = (dev wd)\<lparr>fallbackTimer := Some (Timeout FallbackCapture 800)\<rparr>"
    "bc (fst (screencastFrame wd evt now now2)) = bc wd"
    "snd (screencastFrame wd evt now now2)
        = CdpSend (Session (cdp (dev wd))) (Page_screencastFrameAck (e_sessionId evt))
            # (case fallbackTimer (dev wd) of None \<Rightarrow> [] | Some t \<Rightarrow> [ClearTimeout t])
            @ [SetTimeout FallbackCapture 800]"
    by (simp_all add: u FALLBACK_DELAY_MS_def)
next
  assume a: "getClientCount (bc wd) (deviceId (dev wd)) = 0 \<and> list_all is_frame sts"
  then show "lastActive (dev (fst (session_run lib wd sts))) = lastActive (dev wd)"
    "pendingB64 (dev (fst (session_run lib wd sts))) = pendingB64 (dev wd)"
    "throttleTimer (dev (fst (session_run lib wd sts))) = throttleTimer (dev wd)"
    by (simp_all add: frames_unwatched)
next
  assume a: "getClientCount (bc wd) (deviceId (dev wd)) = 0 \<and> list_all is_frame sts
        \<and> \<not> cleanupRunning reg
        \<and> map_of (devices reg) (deviceId (dev wd)) = Some (dev (fst (session_run lib wd sts)))
        \<and> t - lastActive (dev wd) > ttlMs"
  let ?d = "dev (fst (session_run lib wd sts))"
  from a frames_unwatched [of wd sts lib]
  have "deviceId ?d = deviceId (dev wd)" "lastActive ?d = lastActive (dev wd)" by simp_all
  with a show "map_of (devices (fst (cleanupIdleAsync br reg t ttlMs))) (deviceId (dev wd)) = None"
    by (intro cleanupIdle_evicts [where d = ?d]) simp_all
qed

theorem idle_without_viewers_witness:
  "getClientCount (bc unwatched) (deviceId (dev unwatched)) = 0 \<and> list_all is_frame png_frames
   \<and> \<not> cleanupRunning one_session
   \<and> map_of (devices one_session) (deviceId (dev unwatched)) = Some (dev (fst (session_run toy_lib unwatched png_frames)))
   \<and> 400002 - lastActive (dev unwatched) > DEFAULT_TTL_MS
   \<and> lastActive (dev (fst (session_run toy_lib unwatched png_frames))) = 1000
   \<and> dev (fst (screencastFrame unwatched png_evt 100000 100001)) = dev unwatched
   \<and> snd (screencastFrame unwatched png_evt 100000 100001)
       = [CdpSend (Session ''S1'') (Page_screencastFrameAck ''7''), ClearTimeout (Timeout FallbackCapture 800),
          SetTimeout FallbackCapture 800]
   \<and> map_of (devices (fst (cleanupIdleAsync chrome one_session 400002 DEFAULT_TTL_MS))) ''panel'' = None"
proof -
  have h: "getClientCount (bc unwatched) (deviceId (dev unwatched)) = 0 \<and> list_all is_frame png_frames
      \<and> \<not> cleanupRunning one_session
      \<and> map_of (devices one_session) (deviceId (dev unwatched)) = Some (dev (fst (session_run toy_lib unwatched png_frames)))
      \<and> 400002 - lastActive (dev unwatched) > DEFAULT_TTL_MS"
    by (simp add: unwatched_def no_viewer_def getClientCount_def png_frames_def one_session_def
        fresh_session_def DEFAULT_TTL_MS_def)
  have e: "deviceId (dev unwatched) = ''panel''" "lastActive (dev unwatched) = 1000"
    "(dev unwatched)\<lparr>fallbackTimer := Some (Timeout FallbackCapture 800)\<rparr> = dev unwatched"
    "cdp (dev unwatched) = ''S1''" "e_sessionId png_evt = ''7''"
    "fallbackTimer (dev unwatched) = Some (Timeout FallbackCapture 800)"
    by (simp_all add: unwatched_def fresh_session_def png_evt_def)
  note T = idle_without_viewers [where wd = unwatched and evt = png_evt and now = 100000 and ?now2.0 = 100001
      and sts = png_frames and lib = toy_lib and reg = one_session and t = 400002
      and ttlMs = DEFAULT_TTL_MS and br = chrome]
  from T h have a: "dev (fst (screencastFrame unwatched png_evt 100000 100001))
        = (dev unwatched)\<lparr>fallbackTimer := Some (Timeout FallbackCapture 800)\<rparr>
    \<and> snd (screencastFrame unwatched png_evt 100000 100001)
        = CdpSend (Session (cdp (dev unwatched))) (Page_screencastFrameAck (e_sessionId png_evt))
            # (case fallbackTimer (dev unwatched) of None \<Rightarrow> [] | Some t \<Rightarrow> [ClearTimeout t])
            @ [SetTimeout FallbackCapture 800]"
    by simp
  from T h have b: "lastActive (dev (fst (session_run toy_lib unwatched png_frames))) = lastActive (dev unwatched)"
    by simp
  from T h have c: "map_of (devices (fst (cleanupIdleAsync chrome one_session 400002 DEFAULT_TTL_MS)))
      (deviceId (dev unwatched)) = None"
    by simp
  from h a b c show ?thesis unfolding e by simp
qed

subsection \<open>Reconnecting\<close>

lemma closed_targets_append [simp]: "closed_targets (a @ b) = closed_targets a @ closed_targets b"
  by (induction a rule: closed_targets.induct) auto

lemma created_targets_append [simp]: "created_targets (a @ b) = created_targets a @ created_targets b"
  by (induction a rule: created_targets.induct) auto

lemma cdp_sequence_none:
  "\<forall>(p, c) \<in> set cs. (\<forall>tid. c \<noteq> Target_closeTarget tid) \<and> (\<forall>wd ht. c \<noteq> Target_createTarget wd ht)
   \<Longrightarrow> closed_targets (fst (cdp_sequence rej cs)) = [] \<and> created_targets (fst (cdp_sequence rej cs)) = []"
proof (induction cs)
  case Nil
  then show ?case by simp
next
  case (Cons pc cs)
  obtain p c where pc: "pc = (p, c)" by force
  with Cons.prems have c: "(\<forall>tid. c \<noteq> Target_closeTarget tid) \<and> (\<forall>wd ht. c \<noteq> Target_createTarget wd ht)"
    by auto
  then have one: "closed_targets [CdpSend p c] = [] \<and> created_targets [CdpSend p c] = []"
    by (cases c) auto
  from Cons have ih: "closed_targets (fst (cdp_sequence rej cs)) = [] \<and> created_targets (fst (cdp_sequence rej cs)) = []"
    by auto
  have "fst (cdp_sequence rej (pc # cs)) = [CdpSend p c] \<or>
        fst (cdp_sequence rej (pc # cs)) = [CdpSend p c] @ fst (cdp_sequence rej cs)"
    by (simp add: pc split_beta)
  with one ih show ?case by (elim disjE) (simp_all del: closed_targets.simps created_targets.simps append.simps)
qed

lemma cdp_sequence_accepts:
  "\<forall>p c. \<not> rej p c \<Longrightarrow> snd (cdp_sequence rej cs) = None"
  by (induction cs) (auto simp: split_beta)

text \<open>What \<open>createDevice\<close> does: the first command asks for the target, no other command
  creates or closes one, and a session is returned exactly when no command was rejected.\<close>

lemma createDevice_effects:
  "\<exists>made. snd (snd (createDevice prm br reg i c now out0))
            = out0 @ CdpSend Root (Target_createTarget (width c) (height c)) # made
          \<and> closed_targets made = [] \<and> created_targets made = []"
proof -
  let ?tid = "new_targetId br" and ?sid = "new_sessionId br"
  let ?rest = "[(Root, Target_attachToTarget ?tid), (Session ?sid, Page_enable),
                (Session ?sid, Emulation_setDeviceMetricsOverride (width c) (height c))]
               @ (if prm then [(Session ?sid, Emulation_setEmulatedMedia)] else [])
               @ [(Session ?sid, Page_startScreencast (width c) (height c) (everyNthFrame c))]"
  let ?first = "CdpSend Root (Target_createTarget (width c) (height c))"
  have quiet: "closed_targets (fst (cdp_sequence (rejects br) ?rest)) = []
             \<and> created_targets (fst (cdp_sequence (rejects br) ?rest)) = []"
    by (rule cdp_sequence_none) auto
  have fb: "closed_targets (snd (scheduleFallback d)) = [] \<and> created_targets (snd (scheduleFallback d)) = []" for d
    by (simp add: scheduleFallback_def split: option.splits)
  show ?thesis
  proof (cases "rejects br Root (Target_createTarget (width c) (height c))")
    case True
    then have "snd (snd (createDevice prm br reg i c now out0)) = out0 @ ?first # []"
      by (simp add: createDevice_def Let_def)
    then show ?thesis by (intro exI [of _ "[]"]) simp
  next
    case False
    obtain sent failed where sq: "cdp_sequence (rejects br) ?rest = (sent, failed)" by force
    show ?thesis
    proof (cases failed)
      case (Some cmd)
      with False sq have "snd (snd (createDevice prm br reg i c now out0)) = out0 @ ?first # sent"
        by (simp add: createDevice_def Let_def)
      with quiet sq show ?thesis by (intro exI [of _ sent]) simp
    next
      case None
      let ?nd = "\<lparr>targetId = ?tid, deviceId = i, cdp = ?sid, cfg = c, url = [],
                  lastActive = now, frameId = 0, prevFrameHash = 0,
                  processor = requestFullFrame \<lparr>fullFrameLatch = False\<rparr>,
                  pendingB64 = None, throttleTimer = None, fallbackTimer = None,
                  lastProcessedMs = None, processing = False\<rparr>"
      from None False sq have "snd (snd (createDevice prm br reg i c now out0))
          = out0 @ ?first # (sent @ snd (scheduleFallback ?nd))"
        by (simp add: createDevice_def Let_def split_beta)
      with quiet sq fb [of ?nd] show ?thesis
        by (intro exI [of _ "sent @ snd (scheduleFallback ?nd)"]) simp
    qed
  qed
qed

lemma createDevice_result:
  "(case fst (createDevice prm br reg i c now out0) of
      Inr nd \<Rightarrow> cfg nd = c \<and> deviceId nd = i \<and> targetId nd = new_targetId br
               \<and> fullFrameLatch (processor nd)
               \<and> map_of (devices (fst (snd (createDevice prm br reg i c now out0)))) i = Some nd
    | Inl e \<Rightarrow> fst (snd (createDevice prm br reg i c now out0)) = reg)"
  by (simp add: createDevice_def Let_def split_beta scheduleFallback_def requestFullFrame_def
      update_conv' split: option.splits)

lemma createDevice_succeeds:
  "\<forall>p c. \<not> rejects br p c \<Longrightarrow> \<exists>nd. fst (createDevice prm br reg i c now out0) = Inr nd"
  by (simp add: createDevice_def Let_def split_beta cdp_sequence_accepts)

lemma deleteDeviceAsync_effects:
  "map_of (devices reg) (deviceId d) \<noteq> None \<Longrightarrow> snd (deleteDeviceAsync br reg d)
     = (if root_ready br then destroy d
        else butlast (destroy d))"
  by (simp add: deleteDeviceAsync_def destroy_def butlast_append)

text \<open>After a call that returns a session, the registry holds that session under the id,
  and its config passes the equality test with the requested one.\<close>

lemma ensureDevice_registered:
  assumes "ensureDeviceAsync eq prm br reg i a now = (Inr d1, reg1, out1)" and "eq a a"
  shows "map_of (devices reg1) i = Some d1 \<and> eq (cfg d1) a"
proof -
  from assms(1) have ready: "root_ready br" by (auto simp: ensureDeviceAsync_def split: if_splits)
  have created: "map_of (devices reg1) i = Some d1 \<and> eq (cfg d1) a"
    if "createDevice prm br r i a now o0 = (Inr d1, reg1, out1)" for r o0
    using createDevice_result [of prm br r i a now o0] that assms(2) by simp
  show ?thesis
  proof (cases "map_of (devices reg) i")
    case None
    with assms(1) ready have "createDevice prm br reg i a now [] = (Inr d1, reg1, out1)"
      by (simp add: ensureDeviceAsync_def)
    then show ?thesis by (rule created)
  next
    case (Some d)
    show ?thesis
    proof (cases "eq (cfg d) a")
      case True
      with assms(1) ready Some show ?thesis
        by (auto simp: ensureDeviceAsync_def Let_def update_conv')
    next
      case False
      with assms(1) ready Some
      have "createDevice prm br (fst (deleteDeviceAsync br reg d)) i a now (snd (deleteDeviceAsync br reg d))
              = (Inr d1, reg1, out1)"
        by (simp add: ensureDeviceAsync_def Let_def split_beta)
      then show ?thesis by (rule created)
    qed
  qed
qed

text \<open>
  Claim C5. With the browser ready, \<^verbatim>\<open>ensureDevice(id, a)\<close> on a registered session whose
  config passes \<^verbatim>\<open>deviceConfigsEqual\<close> with \<open>a\<close> returns that session, with
  \<open>lastActive\<close> refreshed and a full frame requested, and does nothing else: no command
  is sent and no timer touched. So a second \<^verbatim>\<open>ensureDevice(id, a)\<close> after one that
  returned a session rebuilds nothing. With a config \<open>b\<close> that does not pass the test, the
  call first destroys the registered session (timers cleared, screencast stopped, target
  closed), then asks for a new target: exactly one target is closed, the old one, exactly
  one is asked for, and a session that is returned has the config \<open>b\<close> and is the one
  registered; it is returned whenever the browser rejects no command.
\<close>

theorem ensureDevice_idempotent_rebuild:
  "(root_ready br \<and> map_of (devices reg) i = Some d \<and> eq (cfg d) a \<longrightarrow>
      ensureDeviceAsync eq prm br reg i a now
        = (Inr (d\<lparr>lastActive := now, processor := requestFullFrame (processor d)\<rparr>),
           reg\<lparr>devices := AList.update i (d\<lparr>lastActive := now, processor := requestFullFrame (processor d)\<rparr>)
                                (devices reg)\<rparr>,
           [])
    \<and> fullFrameLatch (requestFullFrame (processor d)))
   \<and> (root_ready br \<and> eq a a \<and> ensureDeviceAsync eq prm br0 reg0 i a now0 = (Inr d1, reg1, out1) \<longrightarrow>
        fst (ensureDeviceAsync eq prm br reg1 i a now)
          = Inr (d1\<lparr>lastActive := now, processor := requestFullFrame (processor d1)\<rparr>)
      \<and> snd (snd (ensureDeviceAsync eq prm br reg1 i a now)) = [])
   \<and> (root_ready br \<and> map_of (devices reg) i = Some d \<and> deviceId d = i \<and> \<not> eq (cfg d) b \<longrightarrow>
        (\<exists>made. snd (snd (ensureDeviceAsync eq prm br reg i b now))
                   = destroy d @ CdpSend Root (Target_createTarget (width b) (height b)) # made
               \<and> closed_targets made = [] \<and> created_targets made = [])
      \<and> closed_targets (snd (snd (ensureDeviceAsync eq prm br reg i b now))) = [targetId d]
      \<and> created_targets (snd (snd (ensureDeviceAsync eq prm br reg i b now))) = [(width b, height b)]
      \<and> (case fst (ensureDeviceAsync eq prm br reg i b now) of
            Inr nd \<Rightarrow> cfg nd = b \<and> map_of (devices (fst (snd (ensureDeviceAsync eq prm br reg i b now)))) i = Some nd
          | Inl e \<Rightarrow> map_of (devices (fst (snd (ensureDeviceAsync eq prm br reg i b now)))) i = None)
      \<and> ((\<forall>p c. \<not> rejects br p c) \<longrightarrow> (\<exists>nd. fst (ensureDeviceAsync eq prm br reg i b now) = Inr nd)))"
proof (intro conjI impI)
  assume a: "root_ready br \<and> map_of (devices reg) i = Some d \<and> eq (cfg d) a"
  then show "ensureDeviceAsync eq prm br reg i a now
        = (Inr (d\<lparr>lastActive := now, processor := requestFullFrame (processor d)\<rparr>),
           reg\<lparr>devices := AList.update i (d\<lparr>lastActive := now, processor := requestFullFrame (processor d)\<rparr>)
                                (devices reg)\<rparr>,
           [])"
    by (simp add: ensureDeviceAsync_def Let_def)
  show "fullFrameLatch (requestFullFrame (processor d))" by (simp add: requestFullFrame_def)
next
  assume a: "root_ready br \<and> eq a a \<and> ensureDeviceAsync eq prm br0 reg0 i a now0 = (Inr d1, reg1, out1)"
  then have "map_of (devices reg1) i = Some d1 \<and> eq (cfg d1) a"
    by (intro ensureDevice_registered [of eq prm br0 reg0 i a now0 d1 reg1 out1]) simp_all
  with a show "fst (ensureDeviceAsync eq prm br reg1 i a now)
          = Inr (d1\<lparr>lastActive := now, processor := requestFullFrame (processor d1)\<rparr>)"
    and "snd (snd (ensureDeviceAsync eq prm br reg1 i a now)) = []"
    by (simp_all add: ensureDeviceAsync_def Let_def)
next
  assume a: "root_ready br \<and> map_of (devices reg) i = Some d \<and> deviceId d = i \<and> \<not> eq (cfg d) b"
  let ?reg1 = "fst (deleteDeviceAsync br reg d)"
  let ?R = "ensureDeviceAsync eq prm br reg i b now"
  from a have del: "snd (deleteDeviceAsync br reg d) = destroy d"
    by (simp add: deleteDeviceAsync_effects)
  from a have gone: "map_of (devices ?reg1) i = None"
    by (simp add: deleteDeviceAsync_lookup)
  from a del have R: "?R = createDevice prm br ?reg1 i b now (destroy d)"
    by (simp add: ensureDeviceAsync_def Let_def split_beta)
  from createDevice_effects [of prm br ?reg1 i b now "destroy d"]
  obtain made where made: "snd (snd ?R) = destroy d @ CdpSend Root (Target_createTarget (width b) (height b)) # made"
    "closed_targets made = []" "created_targets made = []"
    unfolding R by blast
  then show "\<exists>made. snd (snd ?R) = destroy d @ CdpSend Root (Target_createTarget (width b) (height b)) # made
               \<and> closed_targets made = [] \<and> created_targets made = []"
    by blast
  have dz: "closed_targets (destroy d) = [targetId d]" "created_targets (destroy d) = []"
    by (simp_all add: destroy_def split: option.splits)
  from made dz show "closed_targets (snd (snd ?R)) = [targetId d]"
    and "created_targets (snd (snd ?R)) = [(width b, height b)]"
    by simp_all
  from createDevice_result [of prm br ?reg1 i b now "destroy d"] gone
  show "case fst ?R of
            Inr nd \<Rightarrow> cfg nd = b \<and> map_of (devices (fst (snd ?R))) i = Some nd
          | Inl e \<Rightarrow> map_of (devices (fst (snd ?R))) i = None"
    unfolding R by (auto split: sum.splits)
  assume "\<forall>p c. \<not> rejects br p c"
  then show "\<exists>nd. fst ?R = Inr nd" unfolding R by (rule createDevice_succeeds)
qed

lemma rebuild_run:
  "ensureDeviceAsync (=) False chrome panel_only ''panel'' wide_cfg 9000
     = (Inr rebuilt, \<lparr>devices = [(''panel'', rebuilt)], cleanupRunning = False\<rparr>,
        [ClearTimeout (Timeout FallbackCapture 800),
         CdpSend (Session ''S1'') Page_stopScreencast,
         CdpSend Root (Target_closeTarget ''T1''),
         CdpSend Root (Target_createTarget 800 480),
         CdpSend Root (Target_attachToTarget ''T2''),
         CdpSend (Session ''S2'') Page_enable,
         CdpSend (Session ''S2'') (Emulation_setDeviceMetricsOverride 800 480),
         CdpSend (Session ''S2'') (Page_startScreencast 800 480 1),
         SetTimeout FallbackCapture 800])"
  by (simp add: ensureDeviceAsync_def createDevice_def deleteDeviceAsync_def scheduleFallback_def
      requestFullFrame_def Let_def chrome_def panel_only_def fresh_session_def wide_cfg_def
      panel_cfg_def rebuilt_def FALLBACK_DELAY_MS_def AList.delete_eq)

theorem ensureDevice_idempotent_rebuild_witness:
  "(root_ready chrome \<and> map_of (devices panel_only) ''panel'' = Some fresh_session
      \<and> cfg fresh_session = panel_cfg)
   \<and> snd (snd (ensureDeviceAsync (=) False chrome panel_only ''panel'' panel_cfg 9000)) = []
   \<and> fst (ensureDeviceAsync (=) False chrome panel_only ''panel'' panel_cfg 9000)
       = Inr (fresh_session\<lparr>lastActive := 9000\<rparr>)
   \<and> (ensureDeviceAsync (=) False chrome panel_only ''panel'' wide_cfg 9000
       = (Inr rebuilt, \<lparr>devices = [(''panel'', rebuilt)], cleanupRunning = False\<rparr>,
          snd (snd (ensureDeviceAsync (=) False chrome panel_only ''panel'' wide_cfg 9000))))
   \<and> snd (snd (ensureDeviceAsync (=) False chrome \<lparr>devices = [(''panel'', rebuilt)], cleanupRunning = False\<rparr>
                  ''panel'' wide_cfg 9500)) = []
   \<and> (deviceId fresh_session = ''panel'' \<and> cfg fresh_session \<noteq> wide_cfg)
   \<and> closed_targets (snd (snd (ensureDeviceAsync (=) False chrome panel_only ''panel'' wide_cfg 9000))) = [''T1'']
   \<and> created_targets (snd (snd (ensureDeviceAsync (=) False chrome panel_only ''panel'' wide_cfg 9000))) = [(800, 480)]
   \<and> (\<forall>p c. \<not> rejects chrome p c)"
proof -
  have h1: "root_ready chrome \<and> map_of (devices panel_only) ''panel'' = Some fresh_session
      \<and> cfg fresh_session = panel_cfg"
    by (simp add: chrome_def panel_only_def fresh_session_def)
  have h2: "deviceId fresh_session = ''panel'' \<and> cfg fresh_session \<noteq> wide_cfg"
    by (simp add: fresh_session_def wide_cfg_def panel_cfg_def)
  have h3: "\<forall>p c. \<not> rejects chrome p c" by (simp add: chrome_def)
  have e: "targetId fresh_session = ''T1''" "width wide_cfg = 800" "height wide_cfg = 480"
    "processor fresh_session = \<lparr>fullFrameLatch = True\<rparr>"
    by (simp_all add: fresh_session_def wide_cfg_def panel_cfg_def)
  note T1 = ensureDevice_idempotent_rebuild [where eq = "(=)" and prm = False and br = chrome
      and reg = panel_only and i = "''panel''" and d = fresh_session and a = panel_cfg and now = 9000
      and ?br0.0 = chrome and ?reg0.0 = panel_only and ?now0.0 = 9000 and ?d1.0 = fresh_session
      and ?reg1.0 = panel_only and ?out1.0 = "[]" and b = wide_cfg]
  note T2 = ensureDevice_idempotent_rebuild [where eq = "(=)" and prm = False and br = chrome
      and reg = panel_only and i = "''panel''" and d = fresh_session and a = wide_cfg and now = 9500
      and ?br0.0 = chrome and ?reg0.0 = panel_only and ?now0.0 = 9000 and ?d1.0 = rebuilt
      and ?reg1.0 = "\<lparr>devices = [(''panel'', rebuilt)], cleanupRunning = False\<rparr>"
      and ?out1.0 = "snd (snd (ensureDeviceAsync (=) False chrome panel_only ''panel'' wide_cfg 9000))"
      and b = wide_cfg]
  have g1: "root_ready chrome \<and> map_of (devices panel_only) ''panel'' = Some fresh_session
      \<and> cfg fresh_session = panel_cfg"
    using h1 by simp
  from T1 [THEN conjunct1, THEN mp, OF g1]
  have a: "snd (snd (ensureDeviceAsync (=) False chrome panel_only ''panel'' panel_cfg 9000)) = []
     \<and> fst (ensureDeviceAsync (=) False chrome panel_only ''panel'' panel_cfg 9000)
       = Inr (fresh_session\<lparr>lastActive := 9000\<rparr>)"
    by (simp add: requestFullFrame_def e)
  have r: "ensureDeviceAsync (=) False chrome panel_only ''panel'' wide_cfg 9000
       = (Inr rebuilt, \<lparr>devices = [(''panel'', rebuilt)], cleanupRunning = False\<rparr>,
          snd (snd (ensureDeviceAsync (=) False chrome panel_only ''panel'' wide_cfg 9000)))"
    by (simp add: rebuild_run)
  have g2: "root_ready chrome \<and> wide_cfg = wide_cfg \<and> ensureDeviceAsync (=) False chrome panel_only ''panel'' wide_cfg 9000
       = (Inr rebuilt, \<lparr>devices = [(''panel'', rebuilt)], cleanupRunning = False\<rparr>,
          snd (snd (ensureDeviceAsync (=) False chrome panel_only ''panel'' wide_cfg 9000)))"
    using h1 r by simp
  from T2 [THEN conjunct2, THEN conjunct1, THEN mp, OF g2]
  have b: "snd (snd (ensureDeviceAsync (=) False chrome \<lparr>devices = [(''panel'', rebuilt)], cleanupRunning = False\<rparr>
                  ''panel'' wide_cfg 9500)) = []"
    by (rule conjunct2)
  have g3: "root_ready chrome \<and> map_of (devices panel_only) ''panel'' = Some fresh_session
      \<and> deviceId fresh_session = ''panel'' \<and> cfg fresh_session \<noteq> wide_cfg"
    using h1 h2 by simp
  note T3 = T1 [THEN conjunct2, THEN conjunct2, THEN mp, OF g3]
  from T3 [THEN conjunct2, THEN conjunct1] T3 [THEN conjunct2, THEN conjunct2, THEN conjunct1]
  have c: "closed_targets (snd (snd (ensureDeviceAsync (=) False chrome panel_only ''panel'' wide_cfg 9000)))
         = [''T1'']
     \<and> created_targets (snd (snd (ensureDeviceAsync (=) False chrome panel_only ''panel'' wide_cfg 9000)))
         = [(800, 480)]"
    unfolding e by (rule conjI)
  from h1 h2 h3 a r b c show ?thesis by blast
qed

end
